theory Spec2Isabelle
  imports Main
begin

section \<open>Data model\<close>

text \<open>
  The accounts application stores users, organisations, agent assignments and permission
  grants in relational tables. Only the columns that the agent-assignment engine, the
  permission resolution functions and the access gates read or write are kept.
  Primary keys and foreign keys are natural numbers; time stamps are readings of the
  clock, also natural numbers.
\<close>

text \<open>\<^verbatim>\<open>User.ROLE_CHOICES\<close>: \<^verbatim>\<open>'user'\<close>, \<^verbatim>\<open>'superuser'\<close>, \<^verbatim>\<open>'superadmin'\<close>.\<close>

datatype role = User | Superuser | Superadmin

text \<open>
  A \<^verbatim>\<open>User\<close> instance as Python holds it in memory: its primary key and the value of
  its \<^verbatim>\<open>role\<close> attribute. The attribute may differ from the stored column until the
  instance is saved or reloaded.
\<close>

record user_instance =
  uid :: nat
  role :: role

text \<open>
  A row of the \<^verbatim>\<open>Agent\<close> table, with Django's column names. An instance that has not
  been inserted yet has \<^verbatim>\<open>pk = None\<close>; it is written \<open>pk = 0\<close> here (both are false in
  \<^verbatim>\<open>if instance.pk\<close>), and stored rows have positive keys.
\<close>

record agent =
  pk :: nat
  user_id :: nat
  organisation_id :: nat
  assigned_at :: nat
  assigned_by_id :: "nat option"
  is_active :: bool
  revoked_at :: "nat option"
  revoked_by_id :: "nat option"

record organisation =
  org_pk :: nat
  org_is_active :: bool

text \<open>
  The store. \<open>agents\<close> lists the newest row first, which is the order of
  \<^verbatim>\<open>Agent.Meta.ordering = ['-assigned_at']\<close> since \<^verbatim>\<open>assigned_at\<close> is the time of
  insertion. \<open>user_role\<close> is the \<^verbatim>\<open>role\<close> column of the user table, by primary key
  (foreign keys make every user named by an agent row a stored user).
  A permission is identified by its unique \<^verbatim>\<open>key\<close>; \<open>user_permission_access\<close> pairs a
  user with a permission key, \<open>agent_permissions\<close> an agent row with a permission key,
  \<open>user_organisations\<close> a user with an organisation.
\<close>

record db =
  user_role :: "nat \<Rightarrow> role"
  agents :: "agent list"
  next_agent_id :: nat
  organisations :: "organisation list"
  user_organisations :: "(nat \<times> nat) list"
  user_permission_access :: "(nat \<times> string) list"
  agent_permissions :: "(nat \<times> string) list"

datatype error = DoesNotExist | MultipleObjectsReturned

text \<open>\<^verbatim>\<open>QuerySet.get\<close> on the rows that match: exactly one, or an exception.\<close>

fun objects_get :: "'a list \<Rightarrow> error + 'a" where
  "objects_get [] = Inl DoesNotExist"
| "objects_get [x] = Inr x"
| "objects_get (x # y # zs) = Inl MultipleObjectsReturned"

text \<open>\<^verbatim>\<open>QuerySet.first\<close>.\<close>

fun objects_first :: "'a list \<Rightarrow> 'a option" where
  "objects_first [] = None"
| "objects_first (x # xs) = Some x"

text \<open>Loading the related user of a row, and \<^verbatim>\<open>user.save(update_fields=['role'])\<close>.\<close>

definition load_user :: "db \<Rightarrow> nat \<Rightarrow> user_instance" where
  "load_user d u = \<lparr>uid = u, role = user_role d u\<rparr>"

definition save_role :: "db \<Rightarrow> nat \<Rightarrow> role \<Rightarrow> db" where
  "save_role d u r = d\<lparr>user_role := (user_role d)(u := r)\<rparr>"

section \<open>User methods\<close>

text \<open>\<^verbatim>\<open>Agent.objects.filter(user=..., is_active=True)\<close> and its organisation twin.\<close>

definition active_agents_of_user :: "db \<Rightarrow> nat \<Rightarrow> agent list" where
  "active_agents_of_user d u = filter (\<lambda>a. user_id a = u \<and> is_active a) (agents d)"

definition active_agents_of_organisation :: "db \<Rightarrow> nat \<Rightarrow> agent list" where
  "active_agents_of_organisation d org = filter (\<lambda>a. organisation_id a = org \<and> is_active a) (agents d)"

text \<open>
  \<^verbatim>\<open>User.is_agent\<close>. The attribute \<^verbatim>\<open>_is_agent_cache\<close> is set nowhere in the
  repository, so the result is that of the query.
\<close>

definition is_agent :: "db \<Rightarrow> user_instance \<Rightarrow> bool" where
  "is_agent d self = (active_agents_of_user d (uid self) \<noteq> [])"

definition is_superadmin :: "user_instance \<Rightarrow> bool" where
  "is_superadmin self = (role self = Superadmin)"

definition get_managed_organisation :: "db \<Rightarrow> user_instance \<Rightarrow> nat option" where
  "get_managed_organisation d self =
     (if \<not> is_agent d self then None
      else case objects_first (active_agents_of_user d (uid self)) of
             None \<Rightarrow> None
           | Some a \<Rightarrow> Some (organisation_id a))"

text \<open>\<^verbatim>\<open>Permission.objects.filter(agentpermissions__agent=agent)\<close>, as permission keys.\<close>

definition permissions_of_agent :: "db \<Rightarrow> nat \<Rightarrow> string list" where
  "permissions_of_agent d a = map snd (filter (\<lambda>g. fst g = a) (agent_permissions d))"

definition get_agent_permissions :: "db \<Rightarrow> user_instance \<Rightarrow> error + string list" where
  "get_agent_permissions d self =
     (if \<not> is_agent d self then Inr []
      else case objects_get (active_agents_of_user d (uid self)) of
             Inl DoesNotExist \<Rightarrow> Inr []
           | Inl MultipleObjectsReturned \<Rightarrow> Inl MultipleObjectsReturned
           | Inr a \<Rightarrow> Inr (permissions_of_agent d (pk a)))"

definition get_direct_permissions :: "db \<Rightarrow> user_instance \<Rightarrow> string list" where
  "get_direct_permissions d self = map snd (filter (\<lambda>g. fst g = uid self) (user_permission_access d))"

definition get_all_permissions :: "db \<Rightarrow> user_instance \<Rightarrow> error + string list" where
  "get_all_permissions d self =
     (let direct_perms = get_direct_permissions d self in
      case get_agent_permissions d self of
        Inl e \<Rightarrow> Inl e
      | Inr agent_perms \<Rightarrow> Inr (remdups (direct_perms @ agent_perms)))"

definition has_permission :: "db \<Rightarrow> user_instance \<Rightarrow> string \<Rightarrow> error + bool" where
  "has_permission d self permission_key =
     (if is_superadmin self then Inr True
      else case get_all_permissions d self of
             Inl e \<Rightarrow> Inl e
           | Inr ps \<Rightarrow> Inr (permission_key \<in> set ps))"

text \<open>
  \<^verbatim>\<open>User.sync_role_with_agent_status\<close>: the role held by the instance is compared and,
  when it changes, saved.
\<close>

definition sync_role_with_agent_status :: "db \<Rightarrow> user_instance \<Rightarrow> db" where
  "sync_role_with_agent_status d self =
     (let is_agent_now = is_agent d self in
      if is_agent_now \<and> role self \<noteq> Superuser then save_role d (uid self) Superuser
      else if \<not> is_agent_now \<and> role self = Superuser then save_role d (uid self) User
      else d)"

section \<open>Signal handlers on the Agent table\<close>

text \<open>
  \<^verbatim>\<open>post_save\<close>: \<^verbatim>\<open>sync_user_role_on_agent_assign\<close>. \<open>usr\<close> is \<^verbatim>\<open>instance.user\<close>, the
  user object attached to the saved instance.
\<close>

definition sync_user_role_on_agent_assign :: "db \<Rightarrow> agent \<Rightarrow> user_instance \<Rightarrow> db" where
  "sync_user_role_on_agent_assign d instance usr =
     (if is_active instance then
        (if role usr \<noteq> Superuser then save_role d (uid usr) Superuser else d)
      else d)"

text \<open>
  \<^verbatim>\<open>pre_save\<close>: \<^verbatim>\<open>sync_user_role_on_agent_revoke\<close>. It runs before the row is written, so
  the stored row is still the old one; a missing row (\<^verbatim>\<open>Agent.DoesNotExist\<close>) is passed
  over.
\<close>

definition sync_user_role_on_agent_revoke :: "db \<Rightarrow> agent \<Rightarrow> db" where
  "sync_user_role_on_agent_revoke d instance =
     (if pk instance \<noteq> 0 then
        (case find (\<lambda>a. pk a = pk instance) (agents d) of
           None \<Rightarrow> d
         | Some old_instance \<Rightarrow>
             if is_active old_instance \<and> \<not> is_active instance then
               (let usr = load_user d (user_id instance);
                    other_active_agents =
                      (filter (\<lambda>a. user_id a = uid usr \<and> is_active a \<and> pk a \<noteq> pk instance) (agents d) \<noteq> [])
                in if \<not> other_active_agents \<and> role usr = Superuser
                   then save_role d (uid usr) User else d)
             else d)
      else d)"

text \<open>\<^verbatim>\<open>post_delete\<close>: \<^verbatim>\<open>sync_user_role_on_agent_delete\<close>, run once the row is gone.\<close>

definition sync_user_role_on_agent_delete :: "db \<Rightarrow> agent \<Rightarrow> db" where
  "sync_user_role_on_agent_delete d instance =
     (let usr = load_user d (user_id instance);
          has_other_agents = (filter (\<lambda>a. user_id a = uid usr \<and> is_active a) (agents d) \<noteq> [])
      in if \<not> has_other_agents \<and> role usr = Superuser
         then save_role d (uid usr) User else d)"

section \<open>Writes to the Agent table\<close>

text \<open>
  \<^verbatim>\<open>agent.save()\<close> of a stored instance: the pre-save handler, the update of the row with
  the instance's key, the post-save handlers (\<^verbatim>\<open>log_agent_assignment\<close> only logs).
\<close>

definition agent_save :: "db \<Rightarrow> agent \<Rightarrow> db" where
  "agent_save d instance =
     (let d1 = sync_user_role_on_agent_revoke d instance;
          d2 = d1\<lparr>agents := map (\<lambda>r. if pk r = pk instance then instance else r) (agents d1)\<rparr>
      in sync_user_role_on_agent_assign d2 instance (load_user d2 (user_id instance)))"

text \<open>
  \<^verbatim>\<open>Agent.objects.create(user=user, organisation=organisation, assigned_by=assigned_by,
  is_active=True)\<close>: the instance is built around the caller's user object, gets the next
  key and the current time, and the post-save handler sees that same user object.
\<close>

definition objects_create :: "db \<Rightarrow> user_instance \<Rightarrow> nat \<Rightarrow> nat option \<Rightarrow> nat \<Rightarrow> agent \<times> db" where
  "objects_create d usr org assigned_by now =
     (let unsaved = \<lparr>pk = 0, user_id = uid usr, organisation_id = org, assigned_at = now,
                     assigned_by_id = assigned_by, is_active = True,
                     revoked_at = None, revoked_by_id = None\<rparr>;
          d1 = sync_user_role_on_agent_revoke d unsaved;
          new_agent = unsaved\<lparr>pk := next_agent_id d1\<rparr>;
          d2 = d1\<lparr>agents := new_agent # agents d1, next_agent_id := Suc (next_agent_id d1)\<rparr>
      in (new_agent, sync_user_role_on_agent_assign d2 new_agent usr))"

text \<open>
  \<^verbatim>\<open>agent.delete()\<close>: the row goes, its permission grants go with it
  (\<^verbatim>\<open>on_delete=CASCADE\<close>), then the post-delete handler runs.
\<close>

definition agent_delete :: "db \<Rightarrow> agent \<Rightarrow> db" where
  "agent_delete d instance =
     (let d1 = d\<lparr>agents := filter (\<lambda>r. pk r \<noteq> pk instance) (agents d),
                 agent_permissions := filter (\<lambda>g. fst g \<noteq> pk instance) (agent_permissions d)\<rparr>
      in sync_user_role_on_agent_delete d1 instance)"

section \<open>Agent assignment engine\<close>

text \<open>
  The first loop of \<^verbatim>\<open>Agent.assign_agent\<close>, over the rows the query returned: each is
  deactivated, stamped and saved, and the role of its user is synchronised.
\<close>

fun deactivate_existing_agents :: "agent list \<Rightarrow> nat option \<Rightarrow> nat \<Rightarrow> db \<Rightarrow> db" where
  "deactivate_existing_agents [] assigned_by now d = d"
| "deactivate_existing_agents (a # as) assigned_by now d =
     (let a' = a\<lparr>is_active := False, revoked_at := Some now, revoked_by_id := assigned_by\<rparr>;
          d1 = agent_save d a';
          d2 = sync_role_with_agent_status d1 (load_user d1 (user_id a'))
      in deactivate_existing_agents as assigned_by now d2)"

text \<open>The second loop: the same without the call of \<^verbatim>\<open>sync_role_with_agent_status\<close>.\<close>

fun deactivate_user_agents :: "agent list \<Rightarrow> nat option \<Rightarrow> nat \<Rightarrow> db \<Rightarrow> db" where
  "deactivate_user_agents [] assigned_by now d = d"
| "deactivate_user_agents (a # as) assigned_by now d =
     (let a' = a\<lparr>is_active := False, revoked_at := Some now, revoked_by_id := assigned_by\<rparr>
      in deactivate_user_agents as assigned_by now (agent_save d a'))"

text \<open>
  \<^verbatim>\<open>Agent.assign_agent(user, organisation, assigned_by)\<close>. \<open>now\<close> is the reading of
  \<^verbatim>\<open>timezone.now()\<close>. The result is the new instance and the store.
\<close>

definition assign_agent :: "db \<Rightarrow> user_instance \<Rightarrow> nat \<Rightarrow> nat option \<Rightarrow> nat \<Rightarrow> agent \<times> db" where
  "assign_agent d usr org assigned_by now =
     (let existing_agents = active_agents_of_organisation d org;
          d1 = deactivate_existing_agents existing_agents assigned_by now d;
          user_agents = active_agents_of_user d1 (uid usr);
          d2 = deactivate_user_agents user_agents assigned_by now d1;
          (new_agent, d3) = objects_create d2 usr org assigned_by now
      in (new_agent, save_role d3 (uid usr) Superuser))"

text \<open>
  \<^verbatim>\<open>Agent.revoke_agent(agent_id, revoked_by)\<close>; \<^verbatim>\<open>cls.objects.get(id=agent_id)\<close> looks a
  primary key up, so it finds one row or raises \<^verbatim>\<open>DoesNotExist\<close>.
\<close>

definition revoke_agent :: "db \<Rightarrow> nat \<Rightarrow> nat option \<Rightarrow> nat \<Rightarrow> error + agent \<times> db" where
  "revoke_agent d agent_id revoked_by now =
     (case find (\<lambda>a. pk a = agent_id) (agents d) of
        None \<Rightarrow> Inl DoesNotExist
      | Some a \<Rightarrow>
          (let a' = a\<lparr>is_active := False, revoked_at := Some now, revoked_by_id := revoked_by\<rparr>;
               d1 = agent_save d a'
           in Inr (a', sync_role_with_agent_status d1 (load_user d1 (user_id a')))))"

section \<open>Permission resolution service\<close>

text \<open>
  \<^verbatim>\<open>utils/permissions.py\<close>. An organisation argument is given by its primary key
  (the functions compare \<^verbatim>\<open>.id\<close> only); the optional argument of
  \<^verbatim>\<open>check_user_permission\<close> is \<open>None\<close> when it is left out.
\<close>

definition check_user_permission :: "db \<Rightarrow> user_instance \<Rightarrow> string \<Rightarrow> nat option \<Rightarrow> error + bool" where
  "check_user_permission d usr permission_key organisation_arg =
     (if is_superadmin usr then Inr True
      else case organisation_arg of
             Some org \<Rightarrow>
               if is_agent d usr then
                 (case get_managed_organisation d usr of
                    Some managed_org \<Rightarrow>
                      if managed_org = org then has_permission d usr permission_key
                      else Inr False
                  | None \<Rightarrow> Inr False)
               else has_permission d usr permission_key
           | None \<Rightarrow> has_permission d usr permission_key)"

text \<open>
  \<^verbatim>\<open>get_user_accessible_organisations\<close>. The last branch is the join of the organisation
  table with the membership table, followed by \<^verbatim>\<open>distinct()\<close>.
\<close>

definition get_user_accessible_organisations :: "db \<Rightarrow> user_instance \<Rightarrow> organisation list" where
  "get_user_accessible_organisations d usr =
     (if is_superadmin usr then filter org_is_active (organisations d)
      else if is_agent d usr then
        (case get_managed_organisation d usr of
           Some managed_org \<Rightarrow>
             filter (\<lambda>row. org_pk row = managed_org \<and> org_is_active row) (organisations d)
         | None \<Rightarrow> [])
      else remdups
             (concat (map (\<lambda>row. map (\<lambda>m. row)
                                  (filter (\<lambda>m. fst m = uid usr \<and> snd m = org_pk row \<and> org_is_active row)
                                          (user_organisations d)))
                          (organisations d))))"

definition can_user_access_organisation :: "db \<Rightarrow> user_instance \<Rightarrow> nat \<Rightarrow> bool" where
  "can_user_access_organisation d usr org =
     (filter (\<lambda>row. org_pk row = org) (get_user_accessible_organisations d usr) \<noteq> [])"

definition can_user_manage_organisation :: "db \<Rightarrow> user_instance \<Rightarrow> nat \<Rightarrow> bool" where
  "can_user_manage_organisation d usr org =
     (if is_superadmin usr then True
      else if is_agent d usr then get_managed_organisation d usr = Some org
      else False)"

section \<open>Access-control gates\<close>

text \<open>
  The object handed to \<^verbatim>\<open>has_object_permission\<close>: an \<^verbatim>\<open>Organisation\<close>, an object with
  an \<^verbatim>\<open>organisation\<close> attribute (an \<^verbatim>\<open>Agent\<close> or a \<^verbatim>\<open>UserOrganisation\<close>, whose
  foreign key is not nullable), or anything else.
\<close>

datatype gate_object = Organisation_object nat | Related_object nat | Other_object

text \<open>
  The resolution that every object gate starts with: \<^verbatim>\<open>hasattr(obj, 'organisation')\<close>,
  then \<^verbatim>\<open>isinstance(obj, Organisation)\<close>, else no organisation.
\<close>

fun object_organisation :: "gate_object \<Rightarrow> nat option" where
  "object_organisation (Related_object org) = Some org"
| "object_organisation (Organisation_object org) = Some org"
| "object_organisation Other_object = None"

text \<open>
  \<^verbatim>\<open>getattr(view, 'permission_required', None)\<close> followed by \<^verbatim>\<open>if not permission_key\<close>:
  a missing attribute and the empty string both count as no key.
\<close>

fun no_permission_key :: "string option \<Rightarrow> bool" where
  "no_permission_key None = True"
| "no_permission_key (Some k) = (k = [])"

definition IsAgentOfOrganisation_has_object_permission :: "db \<Rightarrow> user_instance \<Rightarrow> gate_object \<Rightarrow> bool" where
  "IsAgentOfOrganisation_has_object_permission d request_user obj =
     (if is_superadmin request_user then True
      else case object_organisation obj of
             None \<Rightarrow> False
           | Some org \<Rightarrow>
               if is_agent d request_user
               then get_managed_organisation d request_user = Some org
               else False)"

definition CanManageOrganisation_has_object_permission :: "db \<Rightarrow> user_instance \<Rightarrow> gate_object \<Rightarrow> bool" where
  "CanManageOrganisation_has_object_permission d request_user obj =
     (if is_superadmin request_user then True
      else case object_organisation obj of
             None \<Rightarrow> False
           | Some org \<Rightarrow> can_user_manage_organisation d request_user org)"

definition CanAccessOrganisation_has_object_permission :: "db \<Rightarrow> user_instance \<Rightarrow> gate_object \<Rightarrow> bool" where
  "CanAccessOrganisation_has_object_permission d request_user obj =
     (if is_superadmin request_user then True
      else case object_organisation obj of
             None \<Rightarrow> False
           | Some org \<Rightarrow> can_user_access_organisation d request_user org)"

definition HasOrganisationPermission_has_object_permission ::
    "db \<Rightarrow> user_instance \<Rightarrow> string option \<Rightarrow> gate_object \<Rightarrow> error + bool" where
  "HasOrganisationPermission_has_object_permission d request_user permission_required obj =
     (if is_superadmin request_user then Inr True
      else case object_organisation obj of
             None \<Rightarrow> Inr False
           | Some org \<Rightarrow>
               if no_permission_key permission_required
               then Inr (can_user_access_organisation d request_user org)
               else check_user_permission d request_user (the permission_required) (Some org))"

text \<open>
  \<^verbatim>\<open>HasPermissionKey.has_permission\<close>. The requester is \<open>None\<close> when the request has no
  authenticated user.
\<close>

definition HasPermissionKey_has_permission ::
    "db \<Rightarrow> user_instance option \<Rightarrow> string option \<Rightarrow> error + bool" where
  "HasPermissionKey_has_permission d request_user permission_required =
     (case request_user of
        None \<Rightarrow> Inr False
      | Some usr \<Rightarrow>
          if is_superadmin usr then Inr True
          else if no_permission_key permission_required then Inr True
          else has_permission d usr (the permission_required))"

section \<open>Invariants of the store\<close>

text \<open>The two conditional unique constraints of \<^verbatim>\<open>Agent.Meta.constraints\<close>.\<close>

definition unique_active_agent_per_org :: "db \<Rightarrow> bool" where
  "unique_active_agent_per_org d = (\<forall>org. length (active_agents_of_organisation d org) \<le> 1)"

definition unique_active_agent_per_user :: "db \<Rightarrow> bool" where
  "unique_active_agent_per_user d = (\<forall>u. length (active_agents_of_user d u) \<le> 1)"

text \<open>Keys come from a sequence: no stored row has a key the sequence has yet to give.\<close>

definition keys_below_sequence :: "db \<Rightarrow> bool" where
  "keys_below_sequence d = (\<forall>r \<in> set (agents d). pk r < next_agent_id d)"

text \<open>The cached role agrees with the agent table: who holds an active row is elevated.\<close>

definition active_agents_elevated :: "db \<Rightarrow> bool" where
  "active_agents_elevated d = (\<forall>r \<in> set (agents d). is_active r \<longrightarrow> user_role d (user_id r) = Superuser)"

text \<open>The states that calls of the two mutators lead to.\<close>

inductive reachable :: "db \<Rightarrow> db \<Rightarrow> bool" for d0 :: db where
  start: "reachable d0 d0"
| assign: "reachable d0 d \<Longrightarrow> assign_agent d usr org assigned_by now = (a, d') \<Longrightarrow> reachable d0 d'"
| revoke: "reachable d0 d \<Longrightarrow> revoke_agent d agent_id revoked_by now = Inr (a, d') \<Longrightarrow> reachable d0 d'"

text \<open>
  The store of \<^verbatim>\<open>assign_agent\<close> after its two loops, before the new row is created.
\<close>

definition after_deactivation :: "db \<Rightarrow> user_instance \<Rightarrow> nat \<Rightarrow> nat option \<Rightarrow> nat \<Rightarrow> db" where
  "after_deactivation d usr org assigned_by now =
     (let d1 = deactivate_existing_agents (active_agents_of_organisation d org) assigned_by now d
      in deactivate_user_agents (active_agents_of_user d1 (uid usr)) assigned_by now d1)"

text \<open>The row as the loops and \<^verbatim>\<open>revoke_agent\<close> write it.\<close>

definition stamped :: "agent \<Rightarrow> nat option \<Rightarrow> nat \<Rightarrow> agent" where
  "stamped a revoker now = a\<lparr>is_active := False, revoked_at := Some now, revoked_by_id := revoker\<rparr>"

section \<open>A write that fails\<close>



section \<open>Example stores\<close>

text \<open>
  User 2 is the active agent of organisation 4 (agent row 7), user 3 a regular user,
  user 9 a superadmin. Organisations 4 and 5 are active, organisation 6 is disabled.
  User 3 is a member of organisation 5 and holds the direct grant \<^verbatim>\<open>view_contacts\<close>;
  the agent row holds \<^verbatim>\<open>view_reports\<close>.
\<close>

definition example_agent :: agent where
  "example_agent = \<lparr>pk = 7, user_id = 2, organisation_id = 4, assigned_at = 10,
                     assigned_by_id = Some 9, is_active = True,
                     revoked_at = None, revoked_by_id = None\<rparr>"

definition example_db :: db where
  "example_db = \<lparr>user_role = (\<lambda>u. User)(2 := Superuser, 9 := Superadmin),
                  agents = [example_agent],
                  next_agent_id = 8,
                  organisations = [\<lparr>org_pk = 4, org_is_active = True\<rparr>,
                                   \<lparr>org_pk = 5, org_is_active = True\<rparr>,
                                   \<lparr>org_pk = 6, org_is_active = False\<rparr>],
                  user_organisations = [(3, 5)],
                  user_permission_access = [(3, ''view_contacts'')],
                  agent_permissions = [(7, ''view_reports'')]\<rparr>"

text \<open>The same store with the agent row on the disabled organisation 6.\<close>

definition disabled_org_db :: db where
  "disabled_org_db = example_db\<lparr>agents := [example_agent\<lparr>organisation_id := 6\<rparr>]\<rparr>"

text \<open>The same store with the agent row held by the superadmin 9.\<close>

definition superadmin_agent_db :: db where
  "superadmin_agent_db = example_db\<lparr>agents := [example_agent\<lparr>user_id := 9\<rparr>]\<rparr>"

text \<open>The same store with a direct grant, \<^verbatim>\<open>edit_users\<close>, for the agent 2.\<close>

definition granted_agent_db :: db where
  "granted_agent_db
     = example_db\<lparr>user_permission_access := [(2, ''edit_users''), (3, ''view_contacts'')]\<rparr>"

text \<open>
  The same store where user 2 also has an older, revoked row (key 6) for organisation 5.
\<close>

definition revoked_agent :: agent where
  "revoked_agent = \<lparr>pk = 6, user_id = 2, organisation_id = 5, assigned_at = 3,
                     assigned_by_id = Some 9, is_active = False,
                     revoked_at = Some 4, revoked_by_id = Some 9\<rparr>"

definition two_rows_db :: db where
  "two_rows_db = example_db\<lparr>agents := [example_agent, revoked_agent]\<rparr>"

text \<open>That store with the cached role of user 2 out of step: \<^verbatim>\<open>'user'\<close> beside an active row.\<close>

definition unsynced_db :: db where
  "unsynced_db = two_rows_db\<lparr>user_role := (user_role two_rows_db)(2 := User)\<rparr>"

section \<open>The example stores, field by field\<close>

lemma load_user_fields: "uid (load_user d u) = u" "role (load_user d u) = user_role d u"
  by (simp_all add: load_user_def)

lemma example_agent_fields:
  "pk example_agent = 7" "user_id example_agent = 2" "organisation_id example_agent = 4"
  "is_active example_agent" "revoked_at example_agent = None"
  "revoked_by_id example_agent = None" "assigned_by_id example_agent = Some 9"
  by (simp_all add: example_agent_def)

lemma example_db_fields:
  "agents example_db = [example_agent]"
  "next_agent_id example_db = 8"
  "organisations example_db = [\<lparr>org_pk = 4, org_is_active = True\<rparr>,
                               \<lparr>org_pk = 5, org_is_active = True\<rparr>,
                               \<lparr>org_pk = 6, org_is_active = False\<rparr>]"
  "user_organisations example_db = [(3, 5)]"
  "user_permission_access example_db = [(3, ''view_contacts'')]"
  "agent_permissions example_db = [(7, ''view_reports'')]"
  "user_role example_db = (\<lambda>u. User)(2 := Superuser, 9 := Superadmin)"
  by (simp_all add: example_db_def)

lemma disabled_org_db_fields:
  "agents disabled_org_db = [example_agent\<lparr>organisation_id := 6\<rparr>]"
  "next_agent_id disabled_org_db = 8"
  "organisations disabled_org_db = organisations example_db"
  "user_organisations disabled_org_db = user_organisations example_db"
  "user_permission_access disabled_org_db = user_permission_access example_db"
  "agent_permissions disabled_org_db = agent_permissions example_db"
  "user_role disabled_org_db = user_role example_db"
  by (simp_all add: disabled_org_db_def example_db_fields)

lemma superadmin_agent_db_fields:
  "agents superadmin_agent_db = [example_agent\<lparr>user_id := 9\<rparr>]"
  "next_agent_id superadmin_agent_db = 8"
  "organisations superadmin_agent_db = organisations example_db"
  "user_organisations superadmin_agent_db = user_organisations example_db"
  "user_permission_access superadmin_agent_db = user_permission_access example_db"
  "agent_permissions superadmin_agent_db = agent_permissions example_db"
  "user_role superadmin_agent_db = user_role example_db"
  by (simp_all add: superadmin_agent_db_def example_db_fields)

section \<open>The agent table under the mutators\<close>

text \<open>Role writes and the signal handlers leave the agent table alone.\<close>

lemma agents_save_role: "agents (save_role d u r) = agents d"
  by (simp add: save_role_def)

lemma agents_sync_role: "agents (sync_role_with_agent_status d self) = agents d"
  by (simp add: sync_role_with_agent_status_def Let_def agents_save_role)

lemma agents_on_assign: "agents (sync_user_role_on_agent_assign d i usr) = agents d"
  by (simp add: sync_user_role_on_agent_assign_def agents_save_role)

lemma agents_on_revoke: "agents (sync_user_role_on_agent_revoke d i) = agents d"
  by (simp add: sync_user_role_on_agent_revoke_def Let_def agents_save_role split: option.split)

lemma agents_agent_save:
  "agents (agent_save d i) = map (\<lambda>r. if pk r = pk i then i else r) (agents d)"
  by (simp add: agent_save_def Let_def agents_on_assign agents_on_revoke)

lemma filter_active_map_le:
  assumes "\<And>x. f x = x \<or> \<not> is_active (f x)"
  shows "length (filter (\<lambda>a. Q a \<and> is_active a) (map f xs)) \<le> length (filter (\<lambda>a. Q a \<and> is_active a) xs)"
proof (induction xs)
  case Nil
  show ?case by simp
next
  case (Cons x xs)
  from assms [of x] show ?case
  proof
    assume "f x = x"
    with Cons show ?thesis by simp
  next
    assume "\<not> is_active (f x)"
    with Cons show ?thesis by simp
  qed
qed

lemma agent_save_inactive_count:
  assumes "\<not> is_active i"
  shows "length (filter (\<lambda>a. Q a \<and> is_active a) (agents (agent_save d i)))
         \<le> length (filter (\<lambda>a. Q a \<and> is_active a) (agents d))"
  unfolding agents_agent_save
  by (rule filter_active_map_le) (simp add: assms)

lemma agent_save_inactive_still_active:
  assumes "\<not> is_active i" and "r \<in> set (agents (agent_save d i))" and "is_active r"
  shows "r \<in> set (agents d) \<and> pk r \<noteq> pk i"
  using assms by (auto simp: agents_agent_save split: if_splits)

lemma existing_count:
  "length (filter (\<lambda>a. Q a \<and> is_active a) (agents (deactivate_existing_agents as by now d)))
   \<le> length (filter (\<lambda>a. Q a \<and> is_active a) (agents d))"
proof (induction as arbitrary: d)
  case Nil
  show ?case by simp
next
  case (Cons a as)
  let ?a' = "a\<lparr>is_active := False, revoked_at := Some now, revoked_by_id := by\<rparr>"
  let ?d2 = "sync_role_with_agent_status (agent_save d ?a') (load_user (agent_save d ?a') (user_id ?a'))"
  have "length (filter (\<lambda>a. Q a \<and> is_active a) (agents (deactivate_existing_agents as by now ?d2)))
        \<le> length (filter (\<lambda>a. Q a \<and> is_active a) (agents ?d2))"
    by (rule Cons.IH)
  also have "\<dots> \<le> length (filter (\<lambda>a. Q a \<and> is_active a) (agents d))"
    unfolding agents_sync_role by (rule agent_save_inactive_count) simp
  finally show ?case by (simp add: Let_def)
qed

lemma existing_still_active:
  "r \<in> set (agents (deactivate_existing_agents as by now d)) \<Longrightarrow> is_active r
   \<Longrightarrow> r \<in> set (agents d) \<and> pk r \<notin> pk ` set as"
proof (induction as arbitrary: d)
  case Nil
  then show ?case by simp
next
  case (Cons a as)
  let ?a' = "a\<lparr>is_active := False, revoked_at := Some now, revoked_by_id := by\<rparr>"
  let ?d2 = "sync_role_with_agent_status (agent_save d ?a') (load_user (agent_save d ?a') (user_id ?a'))"
  from Cons.prems have "r \<in> set (agents (deactivate_existing_agents as by now ?d2))"
    by (simp add: Let_def)
  with Cons.IH Cons.prems(2) have 1: "r \<in> set (agents ?d2)" and 2: "pk r \<notin> pk ` set as"
    by blast+
  from 1 have "r \<in> set (agents (agent_save d ?a'))" by (simp add: agents_sync_role)
  with Cons.prems(2) have "r \<in> set (agents d) \<and> pk r \<noteq> pk ?a'"
    by (intro agent_save_inactive_still_active) simp_all
  with 2 show ?case by simp
qed

lemma user_count:
  "length (filter (\<lambda>a. Q a \<and> is_active a) (agents (deactivate_user_agents as by now d)))
   \<le> length (filter (\<lambda>a. Q a \<and> is_active a) (agents d))"
proof (induction as arbitrary: d)
  case Nil
  show ?case by simp
next
  case (Cons a as)
  let ?a' = "a\<lparr>is_active := False, revoked_at := Some now, revoked_by_id := by\<rparr>"
  have "length (filter (\<lambda>a. Q a \<and> is_active a) (agents (deactivate_user_agents as by now (agent_save d ?a'))))
        \<le> length (filter (\<lambda>a. Q a \<and> is_active a) (agents (agent_save d ?a')))"
    by (rule Cons.IH)
  also have "\<dots> \<le> length (filter (\<lambda>a. Q a \<and> is_active a) (agents d))"
    by (rule agent_save_inactive_count) simp
  finally show ?case by (simp add: Let_def)
qed

lemma user_still_active:
  "r \<in> set (agents (deactivate_user_agents as by now d)) \<Longrightarrow> is_active r
   \<Longrightarrow> r \<in> set (agents d) \<and> pk r \<notin> pk ` set as"
proof (induction as arbitrary: d)
  case Nil
  then show ?case by simp
next
  case (Cons a as)
  let ?a' = "a\<lparr>is_active := False, revoked_at := Some now, revoked_by_id := by\<rparr>"
  from Cons.prems have "r \<in> set (agents (deactivate_user_agents as by now (agent_save d ?a')))"
    by (simp add: Let_def)
  with Cons.IH Cons.prems(2) have 1: "r \<in> set (agents (agent_save d ?a'))" and 2: "pk r \<notin> pk ` set as"
    by blast+
  from 1 Cons.prems(2) have "r \<in> set (agents d) \<and> pk r \<noteq> pk ?a'"
    by (intro agent_save_inactive_still_active) simp_all
  with 2 show ?case by simp
qed


lemma no_active_org_after_existing:
  "active_agents_of_organisation
     (deactivate_existing_agents (active_agents_of_organisation d org) by now d) org = []"
proof -
  let ?d1 = "deactivate_existing_agents (active_agents_of_organisation d org) by now d"
  {
    fix r
    assume r: "r \<in> set (agents ?d1)" "is_active r" "organisation_id r = org"
    from existing_still_active [OF r(1,2)]
    have "r \<in> set (agents d)" and "pk r \<notin> pk ` set (active_agents_of_organisation d org)"
      by blast+
    moreover from \<open>r \<in> set (agents d)\<close> r(2,3)
    have "r \<in> set (active_agents_of_organisation d org)"
      by (simp add: active_agents_of_organisation_def)
    ultimately have False by blast
  }
  then show ?thesis
    by (auto simp: active_agents_of_organisation_def filter_empty_conv)
qed

lemma no_active_user_after_user_agents:
  "active_agents_of_user (deactivate_user_agents (active_agents_of_user d u) by now d) u = []"
proof -
  let ?d1 = "deactivate_user_agents (active_agents_of_user d u) by now d"
  {
    fix r
    assume r: "r \<in> set (agents ?d1)" "is_active r" "user_id r = u"
    from user_still_active [OF r(1,2)]
    have "r \<in> set (agents d)" and "pk r \<notin> pk ` set (active_agents_of_user d u)"
      by blast+
    moreover from \<open>r \<in> set (agents d)\<close> r(2,3)
    have "r \<in> set (active_agents_of_user d u)"
      by (simp add: active_agents_of_user_def)
    ultimately have False by blast
  }
  then show ?thesis
    by (auto simp: active_agents_of_user_def filter_empty_conv)
qed

lemma org_count_existing:
  "length (active_agents_of_organisation (deactivate_existing_agents as by now d) org)
   \<le> length (active_agents_of_organisation d org)"
  unfolding active_agents_of_organisation_def by (rule existing_count)

lemma user_count_existing:
  "length (active_agents_of_user (deactivate_existing_agents as by now d) u)
   \<le> length (active_agents_of_user d u)"
  unfolding active_agents_of_user_def by (rule existing_count)

lemma org_count_user_agents:
  "length (active_agents_of_organisation (deactivate_user_agents as by now d) org)
   \<le> length (active_agents_of_organisation d org)"
  unfolding active_agents_of_organisation_def by (rule user_count)

lemma user_count_user_agents:
  "length (active_agents_of_user (deactivate_user_agents as by now d) u)
   \<le> length (active_agents_of_user d u)"
  unfolding active_agents_of_user_def by (rule user_count)

lemma objects_create_result:
  "objects_create d usr org by now = (a, d') \<Longrightarrow>
     a = \<lparr>pk = next_agent_id d, user_id = uid usr, organisation_id = org, assigned_at = now,
          assigned_by_id = by, is_active = True, revoked_at = None, revoked_by_id = None\<rparr>
     \<and> agents d' = a # agents d"
  by (auto simp: objects_create_def Let_def sync_user_role_on_agent_revoke_def agents_on_assign)

lemma assign_agent_result:
  assumes "assign_agent d usr org by now = (a, d')"
  shows "a = \<lparr>pk = next_agent_id (after_deactivation d usr org by now), user_id = uid usr,
               organisation_id = org, assigned_at = now,
               assigned_by_id = by, is_active = True, revoked_at = None, revoked_by_id = None\<rparr>"
    and "agents d' = a # agents (after_deactivation d usr org by now)"
proof -
  obtain a0 d3 where c: "objects_create (after_deactivation d usr org by now) usr org by now = (a0, d3)"
    by (cases "objects_create (after_deactivation d usr org by now) usr org by now")
  with assms have "a = a0" and "d' = save_role d3 (uid usr) Superuser"
    by (simp_all add: assign_agent_def after_deactivation_def Let_def)
  with objects_create_result [OF c]
  show "a = \<lparr>pk = next_agent_id (after_deactivation d usr org by now), user_id = uid usr,
               organisation_id = org, assigned_at = now,
               assigned_by_id = by, is_active = True, revoked_at = None, revoked_by_id = None\<rparr>"
    and "agents d' = a # agents (after_deactivation d usr org by now)"
    by (simp_all add: agents_save_role)
qed

lemma after_deactivation_no_org:
  "active_agents_of_organisation (after_deactivation d usr org by now) org = []"
proof -
  let ?d1 = "deactivate_existing_agents (active_agents_of_organisation d org) by now d"
  have "length (active_agents_of_organisation (after_deactivation d usr org by now) org)
        \<le> length (active_agents_of_organisation ?d1 org)"
    unfolding after_deactivation_def Let_def by (rule org_count_user_agents)
  then show ?thesis by (simp add: no_active_org_after_existing)
qed

lemma after_deactivation_no_user:
  "active_agents_of_user (after_deactivation d usr org by now) (uid usr) = []"
  unfolding after_deactivation_def Let_def by (rule no_active_user_after_user_agents)

lemma after_deactivation_org_count:
  "length (active_agents_of_organisation (after_deactivation d usr org by now) org')
   \<le> length (active_agents_of_organisation d org')"
  unfolding after_deactivation_def Let_def
  by (rule order_trans [OF org_count_user_agents org_count_existing])

lemma after_deactivation_user_count:
  "length (active_agents_of_user (after_deactivation d usr org by now) u)
   \<le> length (active_agents_of_user d u)"
  unfolding after_deactivation_def Let_def
  by (rule order_trans [OF user_count_user_agents user_count_existing])

lemma assign_agent_unique_org:
  assumes "unique_active_agent_per_org d" and "assign_agent d usr org by now = (a, d')"
  shows "unique_active_agent_per_org d'"
  unfolding unique_active_agent_per_org_def
proof
  fix org'
  note r = assign_agent_result [OF assms(2)]
  show "length (active_agents_of_organisation d' org') \<le> 1"
  proof (cases "org' = org")
    case True
    have "active_agents_of_organisation d' org = [a]"
      using after_deactivation_no_org [of d usr org "by" now] r
      by (simp add: active_agents_of_organisation_def)
    with True show ?thesis by simp
  next
    case False
    with r have "active_agents_of_organisation d' org'
                 = active_agents_of_organisation (after_deactivation d usr org by now) org'"
      by (simp add: active_agents_of_organisation_def)
    also have "length \<dots> \<le> length (active_agents_of_organisation d org')"
      by (rule after_deactivation_org_count)
    also have "\<dots> \<le> 1" using assms(1) by (simp add: unique_active_agent_per_org_def)
    finally show ?thesis .
  qed
qed

lemma assign_agent_unique_user:
  assumes "unique_active_agent_per_user d" and "assign_agent d usr org by now = (a, d')"
  shows "unique_active_agent_per_user d'"
  unfolding unique_active_agent_per_user_def
proof
  fix u
  note r = assign_agent_result [OF assms(2)]
  show "length (active_agents_of_user d' u) \<le> 1"
  proof (cases "u = uid usr")
    case True
    have "active_agents_of_user d' (uid usr) = [a]"
      using after_deactivation_no_user [of d usr org "by" now] r
      by (simp add: active_agents_of_user_def)
    with True show ?thesis by simp
  next
    case False
    with r have "active_agents_of_user d' u
                 = active_agents_of_user (after_deactivation d usr org by now) u"
      by (simp add: active_agents_of_user_def)
    also have "length \<dots> \<le> length (active_agents_of_user d u)"
      by (rule after_deactivation_user_count)
    also have "\<dots> \<le> 1" using assms(1) by (simp add: unique_active_agent_per_user_def)
    finally show ?thesis .
  qed
qed

lemma revoke_agent_agents:
  assumes "revoke_agent d agent_id by now = Inr (a, d')"
  shows "\<not> is_active a \<and> agents d' = map (\<lambda>r. if pk r = pk a then a else r) (agents d)"
  using assms
  by (auto simp: revoke_agent_def Let_def agents_sync_role agents_agent_save split: option.splits)

lemma revoke_agent_unique_org:
  assumes "unique_active_agent_per_org d" and "revoke_agent d agent_id by now = Inr (a, d')"
  shows "unique_active_agent_per_org d'"
  unfolding unique_active_agent_per_org_def
proof
  fix org
  from revoke_agent_agents [OF assms(2)]
  have na: "\<not> is_active a"
    and ag: "agents d' = map (\<lambda>r. if pk r = pk a then a else r) (agents d)"
    by simp_all
  have "length (active_agents_of_organisation d' org) \<le> length (active_agents_of_organisation d org)"
    unfolding active_agents_of_organisation_def ag
    by (rule filter_active_map_le) (simp add: na)
  with assms(1) show "length (active_agents_of_organisation d' org) \<le> 1"
    unfolding unique_active_agent_per_org_def by (meson order_trans)
qed

lemma revoke_agent_unique_user:
  assumes "unique_active_agent_per_user d" and "revoke_agent d agent_id by now = Inr (a, d')"
  shows "unique_active_agent_per_user d'"
  unfolding unique_active_agent_per_user_def
proof
  fix u
  from revoke_agent_agents [OF assms(2)]
  have na: "\<not> is_active a"
    and ag: "agents d' = map (\<lambda>r. if pk r = pk a then a else r) (agents d)"
    by simp_all
  have "length (active_agents_of_user d' u) \<le> length (active_agents_of_user d u)"
    unfolding active_agents_of_user_def ag
    by (rule filter_active_map_le) (simp add: na)
  with assms(1) show "length (active_agents_of_user d' u) \<le> 1"
    unfolding unique_active_agent_per_user_def by (meson order_trans)
qed

text \<open>
  Claim C1. Start from a store in which every organisation has at most one active agent
  row and every user has at most one active agent row. Then every store reached by calls
  of \<^verbatim>\<open>assign_agent\<close> and \<^verbatim>\<open>revoke_agent\<close>, in any number and order and with any
  arguments, has at most one active agent row for every organisation and at most one
  for every user.
\<close>

theorem reachable_unique_active_agent:
  assumes "unique_active_agent_per_org d0" and "unique_active_agent_per_user d0"
    and "reachable d0 d"
  shows "unique_active_agent_per_org d \<and> unique_active_agent_per_user d"
  using assms(3)
proof (induction rule: reachable.induct)
  case start
  from assms(1,2) show ?case by simp
next
  case (assign d usr org assigned_by now a d')
  then show ?case
    by (blast intro: assign_agent_unique_org assign_agent_unique_user)
next
  case (revoke d agent_id revoked_by now a d')
  then show ?case
    by (blast intro: revoke_agent_unique_org revoke_agent_unique_user)
qed

lemma example_db_unique_org: "unique_active_agent_per_org example_db"
  by (simp add: unique_active_agent_per_org_def active_agents_of_organisation_def
      example_db_fields)

lemma example_db_unique_user: "unique_active_agent_per_user example_db"
  by (simp add: unique_active_agent_per_user_def active_agents_of_user_def
      example_db_fields)

theorem reachable_unique_active_agent_witness:
  "unique_active_agent_per_org example_db \<and> unique_active_agent_per_user example_db
   \<and> reachable example_db (snd (assign_agent example_db (load_user example_db 3) 4 (Some 9) 20))
   \<and> unique_active_agent_per_org (snd (assign_agent example_db (load_user example_db 3) 4 (Some 9) 20))
   \<and> unique_active_agent_per_user (snd (assign_agent example_db (load_user example_db 3) 4 (Some 9) 20))"
proof -
  have r: "reachable example_db (snd (assign_agent example_db (load_user example_db 3) 4 (Some 9) 20))"
    by (rule reachable.assign [OF reachable.start]) (rule prod.collapse [symmetric])
  from reachable_unique_active_agent [OF example_db_unique_org example_db_unique_user r]
    example_db_unique_org example_db_unique_user r
  show ?thesis by simp
qed

lemma singleton_of_member: "x \<in> set xs \<Longrightarrow> length xs \<le> 1 \<Longrightarrow> xs = [x]"
  by (cases xs) auto

lemma only_active_agent_of_user:
  assumes "unique_active_agent_per_user d" and "a \<in> set (agents d)"
    and "user_id a = u" and "is_active a"
  shows "active_agents_of_user d u = [a]"
proof (rule singleton_of_member)
  from assms(2-4) show "a \<in> set (active_agents_of_user d u)"
    by (simp add: active_agents_of_user_def)
  from assms(1) show "length (active_agents_of_user d u) \<le> 1"
    by (simp add: unique_active_agent_per_user_def)
qed

lemma only_active_agent_of_organisation:
  assumes "unique_active_agent_per_org d" and "a \<in> set (agents d)"
    and "organisation_id a = org" and "is_active a"
  shows "active_agents_of_organisation d org = [a]"
proof (rule singleton_of_member)
  from assms(2-4) show "a \<in> set (active_agents_of_organisation d org)"
    by (simp add: active_agents_of_organisation_def)
  from assms(1) show "length (active_agents_of_organisation d org) \<le> 1"
    by (simp add: unique_active_agent_per_org_def)
qed

section \<open>Permission checks in an organisation context\<close>

lemma direct_permissions_table:
  "set (get_direct_permissions d usr) = {key. (uid usr, key) \<in> set (user_permission_access d)}"
  by (auto simp: get_direct_permissions_def image_iff)

lemma agent_permissions_table:
  "set (permissions_of_agent d p) = {key. (p, key) \<in> set (agent_permissions d)}"
  by (auto simp: permissions_of_agent_def image_iff)

lemma agent_has_permission:
  assumes "\<not> is_superadmin usr" and "active_agents_of_user d (uid usr) = [a]"
  shows "get_all_permissions d usr
           = Inr (remdups (get_direct_permissions d usr @ permissions_of_agent d (pk a)))"
    and "has_permission d usr k
           = Inr (k \<in> set (get_direct_permissions d usr) \<union> set (permissions_of_agent d (pk a)))"
  using assms
  by (simp_all add: has_permission_def get_all_permissions_def get_agent_permissions_def
      is_agent_def)

text \<open>
  Claim C3. Let the user be no superadmin and the active agent of organisation \<open>org\<close>,
  in a store that keeps the one-active-row-per-user constraint. For every permission key
  and every other organisation \<open>org'\<close>, \<^verbatim>\<open>check_user_permission\<close> in the context of
  \<open>org'\<close> returns false whatever rows the two grant tables hold; in the context of
  \<open>org\<close> it returns true exactly when the key is in the combined permission set of the
  user. That set is what \<^verbatim>\<open>get_all_permissions\<close> returns, and it holds exactly the keys
  that \<open>user_permission_access\<close> grants to the user or \<open>agent_permissions\<close> grants to the
  agent row.
\<close>

theorem check_user_permission_agent_scope:
  assumes "\<not> is_superadmin usr" and "unique_active_agent_per_user d"
    and "a \<in> set (agents d)" and "user_id a = uid usr" and "is_active a"
    and "organisation_id a = org" and "org' \<noteq> org"
  shows "check_user_permission d usr k (Some org') = Inr False
       \<and> (\<exists>ps. get_all_permissions d usr = Inr ps
             \<and> set ps = {key. (uid usr, key) \<in> set (user_permission_access d)
                              \<or> (pk a, key) \<in> set (agent_permissions d)}
             \<and> check_user_permission d usr k (Some org) = Inr (k \<in> set ps))
       \<and> check_user_permission d usr k (Some org)
           = Inr ((uid usr, k) \<in> set (user_permission_access d)
                  \<or> (pk a, k) \<in> set (agent_permissions d))"
proof -
  have one: "active_agents_of_user d (uid usr) = [a]"
    using assms(2-5) by (rule only_active_agent_of_user)
  then have ag: "is_agent d usr" and m: "get_managed_organisation d usr = Some org"
    using assms(6) by (simp_all add: is_agent_def get_managed_organisation_def)
  let ?ps = "remdups (get_direct_permissions d usr @ permissions_of_agent d (pk a))"
  have tables: "set ?ps = {key. (uid usr, key) \<in> set (user_permission_access d)
                                 \<or> (pk a, key) \<in> set (agent_permissions d)}"
    by (auto simp: direct_permissions_table agent_permissions_table)
  from ag m assms(1,7) have other: "check_user_permission d usr k (Some org') = Inr False"
    by (simp add: check_user_permission_def)
  from ag m assms(1)
  have "check_user_permission d usr k (Some org) = has_permission d usr k"
    by (simp add: check_user_permission_def)
  with agent_has_permission(2) [OF assms(1) one, of k]
  have "check_user_permission d usr k (Some org) = Inr (k \<in> set ?ps)" by simp
  then have own: "check_user_permission d usr k (Some org)
           = Inr ((uid usr, k) \<in> set (user_permission_access d)
                  \<or> (pk a, k) \<in> set (agent_permissions d))"
    and own': "check_user_permission d usr k (Some org) = Inr (k \<in> set ?ps)"
    unfolding tables by simp_all
  from agent_has_permission(1) [OF assms(1) one] tables own'
  have "\<exists>ps. get_all_permissions d usr = Inr ps
             \<and> set ps = {key. (uid usr, key) \<in> set (user_permission_access d)
                              \<or> (pk a, key) \<in> set (agent_permissions d)}
             \<and> check_user_permission d usr k (Some org) = Inr (k \<in> set ps)"
    by blast
  with other own show ?thesis by blast
qed

lemma example_agent_no_superadmin: "\<not> is_superadmin (load_user example_db 2)"
  by (simp add: is_superadmin_def load_user_fields example_db_fields)

lemma granted_agent_db_fields:
  "agents granted_agent_db = [example_agent]"
  "user_role granted_agent_db = user_role example_db"
  "user_permission_access granted_agent_db = [(2, ''edit_users''), (3, ''view_contacts'')]"
  "agent_permissions granted_agent_db = [(7, ''view_reports'')]"
  by (simp_all add: granted_agent_db_def example_db_fields)

lemma granted_agent_db_unique: "unique_active_agent_per_user granted_agent_db"
  by (simp add: unique_active_agent_per_user_def active_agents_of_user_def
      granted_agent_db_fields)

theorem check_user_permission_agent_scope_witness:
  "\<not> is_superadmin (load_user granted_agent_db 2)
   \<and> (2, ''edit_users'') \<in> set (user_permission_access granted_agent_db)
   \<and> (7, ''view_reports'') \<in> set (agent_permissions granted_agent_db)
   \<and> check_user_permission granted_agent_db (load_user granted_agent_db 2) ''view_reports'' (Some 5)
       = Inr False
   \<and> check_user_permission granted_agent_db (load_user granted_agent_db 2) ''edit_users'' (Some 5)
       = Inr False
   \<and> check_user_permission granted_agent_db (load_user granted_agent_db 2) ''view_reports'' (Some 4)
       = Inr True
   \<and> check_user_permission granted_agent_db (load_user granted_agent_db 2) ''edit_users'' (Some 4)
       = Inr True
   \<and> check_user_permission granted_agent_db (load_user granted_agent_db 2) ''view_contacts'' (Some 4)
       = Inr False"
proof -
  have 0: "\<not> is_superadmin (load_user granted_agent_db 2)"
    by (simp add: is_superadmin_def load_user_fields granted_agent_db_fields example_db_fields)
  have 1: "example_agent \<in> set (agents granted_agent_db)" by (simp add: granted_agent_db_fields)
  have 2: "user_id example_agent = uid (load_user granted_agent_db 2)"
    by (simp add: example_agent_fields load_user_fields)
  have 3: "is_active example_agent" by (simp add: example_agent_fields)
  have 4: "organisation_id example_agent = 4" by (simp add: example_agent_fields)
  have 5: "(5::nat) \<noteq> 4" by simp
  note t = check_user_permission_agent_scope [OF 0 granted_agent_db_unique 1 2 3 4 5]
  from t [of "''view_reports''"] t [of "''edit_users''"] t [of "''view_contacts''"] 0
  show ?thesis
    by (simp add: granted_agent_db_fields example_agent_fields load_user_fields)
qed

section \<open>Accessible organisations\<close>

lemma is_agent_managed:
  assumes "is_agent d usr"
  shows "\<exists>a. a \<in> set (agents d) \<and> user_id a = uid usr \<and> is_active a
             \<and> get_managed_organisation d usr = Some (organisation_id a)"
proof -
  from assms obtain a as where l: "active_agents_of_user d (uid usr) = a # as"
    by (auto simp: is_agent_def neq_Nil_conv)
  then have "a \<in> set (active_agents_of_user d (uid usr))" by simp
  then have "a \<in> set (agents d) \<and> user_id a = uid usr \<and> is_active a"
    by (simp add: active_agents_of_user_def)
  moreover from assms l have "get_managed_organisation d usr = Some (organisation_id a)"
    by (simp add: get_managed_organisation_def)
  ultimately show ?thesis by blast
qed

lemma member_organisations_set:
  "set (remdups (concat (map (\<lambda>row. map (\<lambda>m. row)
            (filter (\<lambda>m. fst m = u \<and> snd m = org_pk row \<and> org_is_active row) ms)) os)))
   = {row \<in> set os. org_is_active row \<and> (u, org_pk row) \<in> set ms}"
  by (auto simp: image_iff)

text \<open>
  Claim C6, as the code has it. \<^verbatim>\<open>get_user_accessible_organisations\<close> returns: for a
  superadmin, all active organisations; for a user with an active agent row, the managed
  organisation if it is active and nothing if it is disabled; for every other user,
  whatever the role, the active organisations of which the user is a member.
\<close>

theorem get_user_accessible_organisations_cases:
  "(is_superadmin usr \<longrightarrow>
      set (get_user_accessible_organisations d usr) = {row \<in> set (organisations d). org_is_active row})
   \<and> (\<not> is_superadmin usr \<and> is_agent d usr \<longrightarrow>
      (\<exists>a \<in> set (agents d). user_id a = uid usr \<and> is_active a
         \<and> get_managed_organisation d usr = Some (organisation_id a)
         \<and> set (get_user_accessible_organisations d usr)
             = {row \<in> set (organisations d). org_pk row = organisation_id a \<and> org_is_active row}))
   \<and> (\<not> is_superadmin usr \<and> \<not> is_agent d usr \<longrightarrow>
      set (get_user_accessible_organisations d usr)
        = {row \<in> set (organisations d).
             org_is_active row \<and> (uid usr, org_pk row) \<in> set (user_organisations d)})"
proof (intro conjI impI)
  assume "is_superadmin usr"
  then show "set (get_user_accessible_organisations d usr)
             = {row \<in> set (organisations d). org_is_active row}"
    by (simp add: get_user_accessible_organisations_def)
next
  assume h: "\<not> is_superadmin usr \<and> is_agent d usr"
  then obtain a where a: "a \<in> set (agents d)" "user_id a = uid usr" "is_active a"
      "get_managed_organisation d usr = Some (organisation_id a)"
    using is_agent_managed by blast
  from h a(4) have "set (get_user_accessible_organisations d usr)
      = {row \<in> set (organisations d). org_pk row = organisation_id a \<and> org_is_active row}"
    by (simp add: get_user_accessible_organisations_def)
  with a show "\<exists>a \<in> set (agents d). user_id a = uid usr \<and> is_active a
         \<and> get_managed_organisation d usr = Some (organisation_id a)
         \<and> set (get_user_accessible_organisations d usr)
             = {row \<in> set (organisations d). org_pk row = organisation_id a \<and> org_is_active row}"
    by blast
next
  assume "\<not> is_superadmin usr \<and> \<not> is_agent d usr"
  then show "set (get_user_accessible_organisations d usr)
        = {row \<in> set (organisations d).
             org_is_active row \<and> (uid usr, org_pk row) \<in> set (user_organisations d)}"
    unfolding get_user_accessible_organisations_def
    by (simp only: if_False member_organisations_set)
qed

theorem get_user_accessible_organisations_cases_witness:
  "is_superadmin (load_user example_db 9)
   \<and> set (get_user_accessible_organisations example_db (load_user example_db 9))
       = {row \<in> set (organisations example_db). org_is_active row}
   \<and> \<not> is_superadmin (load_user example_db 2) \<and> is_agent example_db (load_user example_db 2)
   \<and> (\<exists>a \<in> set (agents example_db). user_id a = uid (load_user example_db 2) \<and> is_active a
         \<and> get_managed_organisation example_db (load_user example_db 2) = Some (organisation_id a)
         \<and> set (get_user_accessible_organisations example_db (load_user example_db 2))
             = {row \<in> set (organisations example_db).
                  org_pk row = organisation_id a \<and> org_is_active row})
   \<and> \<not> is_superadmin (load_user example_db 3) \<and> \<not> is_agent example_db (load_user example_db 3)
   \<and> set (get_user_accessible_organisations example_db (load_user example_db 3))
       = {row \<in> set (organisations example_db).
            org_is_active row
            \<and> (uid (load_user example_db 3), org_pk row) \<in> set (user_organisations example_db)}"
proof -
  have s9: "is_superadmin (load_user example_db 9)"
    by (simp add: is_superadmin_def load_user_fields example_db_fields)
  have s2: "\<not> is_superadmin (load_user example_db 2) \<and> is_agent example_db (load_user example_db 2)"
    by (simp add: is_superadmin_def is_agent_def active_agents_of_user_def load_user_fields
        example_db_fields example_agent_fields)
  have s3: "\<not> is_superadmin (load_user example_db 3) \<and> \<not> is_agent example_db (load_user example_db 3)"
    by (simp add: is_superadmin_def is_agent_def active_agents_of_user_def load_user_fields
        example_db_fields example_agent_fields)
  note t9 = get_user_accessible_organisations_cases [of "load_user example_db 9" example_db]
  note t2 = get_user_accessible_organisations_cases [of "load_user example_db 2" example_db]
  note t3 = get_user_accessible_organisations_cases [of "load_user example_db 3" example_db]
  from t9 s9 have a9: "set (get_user_accessible_organisations example_db (load_user example_db 9))
       = {row \<in> set (organisations example_db). org_is_active row}"
    by (elim conjE) (erule mp)
  from t2 s2 have a2: "\<exists>a \<in> set (agents example_db). user_id a = uid (load_user example_db 2) \<and> is_active a
         \<and> get_managed_organisation example_db (load_user example_db 2) = Some (organisation_id a)
         \<and> set (get_user_accessible_organisations example_db (load_user example_db 2))
             = {row \<in> set (organisations example_db).
                  org_pk row = organisation_id a \<and> org_is_active row}"
    by (elim conjE) (erule mp, rule conjI)
  from t3 s3 have a3: "set (get_user_accessible_organisations example_db (load_user example_db 3))
       = {row \<in> set (organisations example_db).
            org_is_active row
            \<and> (uid (load_user example_db 3), org_pk row) \<in> set (user_organisations example_db)}"
    by (elim conjE) (erule mp, rule conjI)
  from s9 a9 s2 a2 s3 a3 show ?thesis by (intro conjI) (elim conjE, assumption)+
qed

text \<open>
  The claim as written fails twice. The agent of a disabled organisation gets the empty
  list, not the managed organisation; and a user whose role is elevated but who has no
  active agent row gets the organisations of which they are a member, not the empty
  list.
\<close>

lemma disabled_org_agent:
  "is_agent disabled_org_db (load_user disabled_org_db 2)"
  "get_managed_organisation disabled_org_db (load_user disabled_org_db 2) = Some 6"
  "\<not> is_superadmin (load_user disabled_org_db 2)"
  by (simp_all add: get_managed_organisation_def is_agent_def active_agents_of_user_def
      is_superadmin_def load_user_fields disabled_org_db_fields example_db_fields
      example_agent_fields)

lemma elevated_member:
  "\<not> is_agent example_db \<lparr>uid = 3, role = Superuser\<rparr>"
  "\<not> is_superadmin \<lparr>uid = 3, role = Superuser\<rparr>"
  by (simp_all add: is_agent_def active_agents_of_user_def is_superadmin_def
      example_db_fields example_agent_fields)

theorem get_user_accessible_organisations_counterexample:
  "is_agent disabled_org_db (load_user disabled_org_db 2)
   \<and> get_managed_organisation disabled_org_db (load_user disabled_org_db 2) = Some 6
   \<and> get_user_accessible_organisations disabled_org_db (load_user disabled_org_db 2) = []
   \<and> \<not> is_agent example_db \<lparr>uid = 3, role = Superuser\<rparr>
   \<and> get_user_accessible_organisations example_db \<lparr>uid = 3, role = Superuser\<rparr>
       = [\<lparr>org_pk = 5, org_is_active = True\<rparr>]"
proof -
  have "get_user_accessible_organisations disabled_org_db (load_user disabled_org_db 2) = []"
    by (simp add: get_user_accessible_organisations_def disabled_org_agent
        disabled_org_db_fields example_db_fields)
  moreover have "get_user_accessible_organisations example_db \<lparr>uid = 3, role = Superuser\<rparr>
       = [\<lparr>org_pk = 5, org_is_active = True\<rparr>]"
    by (simp add: get_user_accessible_organisations_def elevated_member example_db_fields)
  ultimately show ?thesis
    using disabled_org_agent(1,2) elevated_member(1) by simp
qed

section \<open>Access-control gates\<close>

text \<open>
  Claim C10. For a requester who is no superadmin, an object that is neither an
  organisation nor has an \<^verbatim>\<open>organisation\<close> attribute is refused by each of the four
  object gates: agent-of-organisation, can-manage, can-access and the keyed
  organisation-permission gate, whatever key the view carries.
\<close>

theorem object_gates_fail_closed:
  assumes "\<not> is_superadmin request_user" and "object_organisation obj = None"
  shows "IsAgentOfOrganisation_has_object_permission d request_user obj = False
       \<and> CanManageOrganisation_has_object_permission d request_user obj = False
       \<and> CanAccessOrganisation_has_object_permission d request_user obj = False
       \<and> HasOrganisationPermission_has_object_permission d request_user permission_required obj
           = Inr False"
  using assms
  by (simp add: IsAgentOfOrganisation_has_object_permission_def
      CanManageOrganisation_has_object_permission_def
      CanAccessOrganisation_has_object_permission_def
      HasOrganisationPermission_has_object_permission_def)

theorem object_gates_fail_closed_witness:
  "\<not> is_superadmin (load_user example_db 2) \<and> object_organisation Other_object = None
   \<and> IsAgentOfOrganisation_has_object_permission example_db (load_user example_db 2) Other_object = False
   \<and> CanManageOrganisation_has_object_permission example_db (load_user example_db 2) Other_object = False
   \<and> CanAccessOrganisation_has_object_permission example_db (load_user example_db 2) Other_object = False
   \<and> HasOrganisationPermission_has_object_permission example_db (load_user example_db 2)
        (Some ''view_reports'') Other_object = Inr False"
proof -
  have o: "object_organisation Other_object = None" by simp
  from object_gates_fail_closed [OF example_agent_no_superadmin o] example_agent_no_superadmin o
  show ?thesis by blast
qed

text \<open>
  Claim C9, as the code has it. When the view carries no permission key, the keyed
  organisation gate \<^verbatim>\<open>HasOrganisationPermission.has_object_permission\<close> lets a requester
  who is no superadmin through exactly when the organisation resolved from the object is
  one the requester can access, and refuses when none is resolved. The view-level gate
  \<^verbatim>\<open>HasPermissionKey.has_permission\<close> resolves no organisation: with no key it lets
  every authenticated requester through.
\<close>

theorem keyless_gate_checks:
  assumes "no_permission_key permission_required" and "\<not> is_superadmin request_user"
  shows "HasOrganisationPermission_has_object_permission d request_user permission_required obj
           = Inr (case object_organisation obj of
                    None \<Rightarrow> False
                  | Some org \<Rightarrow> can_user_access_organisation d request_user org)
       \<and> HasPermissionKey_has_permission d (Some request_user) permission_required = Inr True"
  using assms
  by (simp add: HasOrganisationPermission_has_object_permission_def
      HasPermissionKey_has_permission_def split: option.split)

lemma regular_user_access:
  "\<not> is_superadmin (load_user example_db 3)"
  "can_user_access_organisation example_db (load_user example_db 3) 5"
  "\<not> can_user_access_organisation example_db (load_user example_db 3) 4"
  by (simp_all add: can_user_access_organisation_def get_user_accessible_organisations_def
      is_superadmin_def is_agent_def active_agents_of_user_def load_user_fields
      example_db_fields example_agent_fields)

theorem keyless_gate_checks_witness:
  "no_permission_key None \<and> \<not> is_superadmin (load_user example_db 3)
   \<and> HasOrganisationPermission_has_object_permission example_db (load_user example_db 3) None
        (Organisation_object 5) = Inr True
   \<and> HasOrganisationPermission_has_object_permission example_db (load_user example_db 3) None
        (Organisation_object 4) = Inr False
   \<and> HasPermissionKey_has_permission example_db (Some (load_user example_db 3)) None = Inr True"
proof -
  have k: "no_permission_key None" by simp
  note t = keyless_gate_checks [OF k regular_user_access(1), of example_db]
  from t [of "Organisation_object 5"] t [of "Organisation_object 4"] k regular_user_access
  show ?thesis by simp
qed

text \<open>
  The claim as written fails for \<^verbatim>\<open>HasPermissionKey.has_permission\<close>: a requester who
  is no superadmin and can access no organisation at all is let through when the view
  carries no key.
\<close>

theorem keyless_gate_counterexample:
  "\<not> is_superadmin \<lparr>uid = 8, role = User\<rparr>
   \<and> get_user_accessible_organisations example_db \<lparr>uid = 8, role = User\<rparr> = []
   \<and> HasPermissionKey_has_permission example_db (Some \<lparr>uid = 8, role = User\<rparr>) None = Inr True"
  by (simp add: HasPermissionKey_has_permission_def get_user_accessible_organisations_def
      is_superadmin_def is_agent_def active_agents_of_user_def
      example_db_fields example_agent_fields)

section \<open>Revocation\<close>

lemma user_role_save_role: "user_role (save_role d u r) = (user_role d)(u := r)"
  by (simp add: save_role_def)

lemma find_replaced:
  "find (\<lambda>r. pk r = k) xs = Some x \<Longrightarrow> pk i = k
   \<Longrightarrow> find (\<lambda>r. pk r = k) (map (\<lambda>r. if pk r = k then i else r) xs) = Some i"
  by (induction xs) (auto split: if_splits)

lemma find_pk: "find (\<lambda>r. pk r = k) xs = Some x \<Longrightarrow> pk x = k \<and> x \<in> set xs"
  by (induction xs) (auto split: if_splits)

lemma stamped_fields:
  "pk (stamped a r t) = pk a" "user_id (stamped a r t) = user_id a"
  "organisation_id (stamped a r t) = organisation_id a"
  "\<not> is_active (stamped a r t)" "revoked_at (stamped a r t) = Some t"
  "revoked_by_id (stamped a r t) = r" "assigned_by_id (stamped a r t) = assigned_by_id a"
  by (simp_all add: stamped_def)

lemma revoke_agent_found:
  assumes "find (\<lambda>r. pk r = agent_id) (agents d) = Some a"
  shows "revoke_agent d agent_id revoker now
         = Inr (stamped a revoker now,
                sync_role_with_agent_status (agent_save d (stamped a revoker now))
                  (load_user (agent_save d (stamped a revoker now)) (user_id a)))"
  using assms by (simp add: revoke_agent_def stamped_def Let_def)

lemma revoke_agent_missing:
  "revoke_agent d agent_id revoker now = Inl DoesNotExist
   \<longleftrightarrow> find (\<lambda>r. pk r = agent_id) (agents d) = None"
  by (simp add: revoke_agent_def Let_def split: option.split)

text \<open>Saving an inactive instance over an inactive row writes the row and nothing else.\<close>

lemma agent_save_inactive_over_inactive:
  assumes "find (\<lambda>r. pk r = pk i) (agents d) = Some old" and "\<not> is_active old"
    and "\<not> is_active i"
  shows "agent_save d i = d\<lparr>agents := map (\<lambda>r. if pk r = pk i then i else r) (agents d)\<rparr>"
  using assms
  by (simp add: agent_save_def sync_user_role_on_agent_revoke_def
      sync_user_role_on_agent_assign_def Let_def)

lemma sync_role_settled:
  assumes "active_agents_of_user d' u = active_agents_of_user d u"
    and "user_role d' = user_role (sync_role_with_agent_status d (load_user d u))"
  shows "sync_role_with_agent_status d' (load_user d' u) = d'"
  using assms
  by (auto simp: sync_role_with_agent_status_def is_agent_def load_user_fields Let_def
      user_role_save_role split: if_splits)

lemma active_rows_rewritten:
  assumes "pk i = k" and "\<not> is_active i" and "\<not> is_active j"
  shows "filter (\<lambda>r. P r \<and> is_active r)
           (map (\<lambda>r. if pk r = k then j else r) (map (\<lambda>r. if pk r = k then i else r) xs))
         = filter (\<lambda>r. P r \<and> is_active r) (map (\<lambda>r. if pk r = k then i else r) xs)"
  using assms by (induction xs) auto

lemma revoke_twice:
  assumes "revoke_agent d agent_id revoker now = Inr (a1, d1)"
  shows "\<exists>a2 d2. revoke_agent d1 agent_id revoker' now' = Inr (a2, d2)
           \<and> a2 = stamped a1 revoker' now'
           \<and> find (\<lambda>r. pk r = agent_id) (agents d2) = Some a2
           \<and> user_role d2 = user_role d1"
proof -
  from assms obtain a where f: "find (\<lambda>r. pk r = agent_id) (agents d) = Some a"
    by (auto simp: revoke_agent_def split: option.splits)
  let ?s = "agent_save d (stamped a revoker now)"
  let ?u = "user_id a"
  from assms have a1: "a1 = stamped a revoker now"
    by (auto simp: revoke_agent_found [OF f])
  from assms have d1: "d1 = sync_role_with_agent_status ?s (load_user ?s ?u)"
    by (auto simp: revoke_agent_found [OF f])
  from find_pk [OF f] have pka: "pk a = agent_id" by simp
  have ags: "agents ?s = map (\<lambda>r. if pk r = agent_id then a1 else r) (agents d)"
    by (simp add: agents_agent_save a1 stamped_fields pka)
  have ag1: "agents d1 = agents ?s" by (simp add: d1 agents_sync_role)
  have f1: "find (\<lambda>r. pk r = agent_id) (agents d1) = Some a1"
    unfolding ag1 ags by (rule find_replaced [OF f]) (simp add: a1 stamped_fields pka)
  let ?a2 = "stamped a1 revoker' now'"
  have pk2: "pk ?a2 = agent_id" by (simp add: stamped_fields a1 pka)
  have u2: "user_id ?a2 = ?u" by (simp add: stamped_fields a1)
  have f1': "find (\<lambda>r. pk r = pk ?a2) (agents d1) = Some a1"
    unfolding pk2 by (rule f1)
  have na1: "\<not> is_active a1" by (simp add: a1 stamped_fields)
  have na2: "\<not> is_active ?a2" by (simp add: stamped_fields)
  from agent_save_inactive_over_inactive [OF f1' na1 na2]
  have s2: "agent_save d1 ?a2
            = d1\<lparr>agents := map (\<lambda>r. if pk r = agent_id then ?a2 else r) (agents d1)\<rparr>"
    by (simp only: pk2)
  let ?s2 = "agent_save d1 ?a2"
  have "agents ?s2 = map (\<lambda>r. if pk r = agent_id then ?a2 else r) (agents d1)"
    unfolding s2 by simp
  then have ag2: "agents ?s2 = map (\<lambda>r. if pk r = agent_id then ?a2 else r)
                                 (map (\<lambda>r. if pk r = agent_id then a1 else r) (agents d))"
    by (simp only: ag1 ags)
  have pk1: "pk a1 = agent_id" by (simp add: a1 stamped_fields pka)
  have "active_agents_of_user ?s2 ?u = active_agents_of_user ?s ?u"
    unfolding active_agents_of_user_def ag2 ags
    by (rule active_rows_rewritten [OF pk1 na1 na2])
  moreover have roles2: "user_role ?s2 = user_role d1"
    unfolding s2 by simp
  then have "user_role ?s2 = user_role (sync_role_with_agent_status ?s (load_user ?s ?u))"
    by (subst roles2) (simp only: d1)
  ultimately have settled: "sync_role_with_agent_status ?s2 (load_user ?s2 ?u) = ?s2"
    by (rule sync_role_settled)
  have u1: "user_id a1 = ?u" by (simp add: a1 stamped_fields)
  from revoke_agent_found [OF f1, of revoker' now']
  have r2: "revoke_agent d1 agent_id revoker' now' = Inr (?a2, ?s2)"
    by (simp only: u1 settled)
  moreover have "find (\<lambda>r. pk r = agent_id) (agents ?s2) = Some ?a2"
    unfolding s2 using find_replaced [OF f1 pk2] by simp
  ultimately show ?thesis using roles2 by blast
qed

text \<open>
  Claim C8. \<^verbatim>\<open>revoke_agent\<close> raises \<^verbatim>\<open>DoesNotExist\<close> (the spec's NotFound) exactly
  when no agent row has the given key. A second call on the row that a first call has
  revoked raises nothing: it returns the row stamped with the new time and the new
  revoker, that row is the stored one, and every user's role is what the first call
  left.
\<close>

theorem revoke_agent_not_found_and_repeat:
  "(revoke_agent d agent_id revoker now = Inl DoesNotExist
      \<longleftrightarrow> agent_id \<notin> pk ` set (agents d))
   \<and> (revoke_agent d agent_id revoker now = Inr (a1, d1) \<longrightarrow>
        \<not> is_active a1
        \<and> (\<exists>a2 d2. revoke_agent d1 agent_id revoker' now' = Inr (a2, d2)
              \<and> \<not> is_active a2 \<and> revoked_at a2 = Some now' \<and> revoked_by_id a2 = revoker'
              \<and> find (\<lambda>r. pk r = agent_id) (agents d2) = Some a2
              \<and> user_role d2 = user_role d1))"
proof (intro conjI impI)
  show "revoke_agent d agent_id revoker now = Inl DoesNotExist
        \<longleftrightarrow> agent_id \<notin> pk ` set (agents d)"
    by (auto simp: revoke_agent_missing find_None_iff)
next
  assume r: "revoke_agent d agent_id revoker now = Inr (a1, d1)"
  from revoke_agent_agents [OF r] show "\<not> is_active a1" by simp
  from revoke_twice [OF r, of revoker' now']
  show "\<exists>a2 d2. revoke_agent d1 agent_id revoker' now' = Inr (a2, d2)
              \<and> \<not> is_active a2 \<and> revoked_at a2 = Some now' \<and> revoked_by_id a2 = revoker'
              \<and> find (\<lambda>r. pk r = agent_id) (agents d2) = Some a2
              \<and> user_role d2 = user_role d1"
    by (auto simp: stamped_fields)
qed

lemma example_find_agent: "find (\<lambda>r. pk r = 7) (agents example_db) = Some example_agent"
  by (simp add: example_db_fields example_agent_fields)

theorem revoke_agent_not_found_and_repeat_witness:
  "revoke_agent example_db 8 (Some 9) 20 = Inl DoesNotExist
   \<and> revoke_agent example_db 7 (Some 9) 20 \<noteq> Inl DoesNotExist
   \<and> (\<exists>a1 d1. revoke_agent example_db 7 (Some 9) 20 = Inr (a1, d1) \<and> \<not> is_active a1
         \<and> (\<exists>a2 d2. revoke_agent d1 7 (Some 3) 30 = Inr (a2, d2)
               \<and> \<not> is_active a2 \<and> revoked_at a2 = Some 30 \<and> revoked_by_id a2 = Some 3
               \<and> find (\<lambda>r. pk r = 7) (agents d2) = Some a2
               \<and> user_role d2 = user_role d1))"
proof -
  obtain a1 d1 where r: "revoke_agent example_db 7 (Some 9) 20 = Inr (a1, d1)"
    using revoke_agent_found [OF example_find_agent] by blast
  have in7: "(7::nat) \<in> pk ` set (agents example_db)"
    by (simp add: example_db_fields example_agent_fields)
  have out8: "(8::nat) \<notin> pk ` set (agents example_db)"
    by (simp add: example_db_fields example_agent_fields)
  note t7 = revoke_agent_not_found_and_repeat
              [of example_db 7 "Some 9" 20 a1 d1 "Some 3" 30]
  note t8 = revoke_agent_not_found_and_repeat
              [of example_db 8 "Some 9" 20 a1 d1 "Some 3" 30]
  from t8 out8 have "revoke_agent example_db 8 (Some 9) 20 = Inl DoesNotExist" by blast
  moreover from t7 in7 have "revoke_agent example_db 7 (Some 9) 20 \<noteq> Inl DoesNotExist" by blast
  moreover from t7 r have "\<not> is_active a1
         \<and> (\<exists>a2 d2. revoke_agent d1 7 (Some 3) 30 = Inr (a2, d2)
               \<and> \<not> is_active a2 \<and> revoked_at a2 = Some 30 \<and> revoked_by_id a2 = Some 3
               \<and> find (\<lambda>r. pk r = 7) (agents d2) = Some a2
               \<and> user_role d2 = user_role d1)" by blast
  ultimately show ?thesis using r by blast
qed

section \<open>What the writes leave alone\<close>

lemma frame_save_role:
  "organisations (save_role d u r) = organisations d"
  "user_organisations (save_role d u r) = user_organisations d"
  "next_agent_id (save_role d u r) = next_agent_id d"
  by (simp_all add: save_role_def)

lemma frame_sync_role:
  "organisations (sync_role_with_agent_status d self) = organisations d"
  "user_organisations (sync_role_with_agent_status d self) = user_organisations d"
  "next_agent_id (sync_role_with_agent_status d self) = next_agent_id d"
  by (simp_all add: sync_role_with_agent_status_def Let_def frame_save_role)

lemma frame_on_assign:
  "organisations (sync_user_role_on_agent_assign d i usr) = organisations d"
  "user_organisations (sync_user_role_on_agent_assign d i usr) = user_organisations d"
  "next_agent_id (sync_user_role_on_agent_assign d i usr) = next_agent_id d"
  by (simp_all add: sync_user_role_on_agent_assign_def frame_save_role)

lemma frame_on_revoke:
  "organisations (sync_user_role_on_agent_revoke d i) = organisations d"
  "user_organisations (sync_user_role_on_agent_revoke d i) = user_organisations d"
  "next_agent_id (sync_user_role_on_agent_revoke d i) = next_agent_id d"
  by (simp_all add: sync_user_role_on_agent_revoke_def Let_def frame_save_role split: option.split)

lemma frame_agent_save:
  "organisations (agent_save d i) = organisations d"
  "user_organisations (agent_save d i) = user_organisations d"
  "next_agent_id (agent_save d i) = next_agent_id d"
  by (simp_all add: agent_save_def Let_def frame_on_assign frame_on_revoke)

lemma frame_existing:
  "organisations (deactivate_existing_agents as by now d) = organisations d
   \<and> user_organisations (deactivate_existing_agents as by now d) = user_organisations d
   \<and> next_agent_id (deactivate_existing_agents as by now d) = next_agent_id d"
  by (induction as arbitrary: d) (simp_all add: Let_def frame_sync_role frame_agent_save)

lemma frame_user_agents:
  "organisations (deactivate_user_agents as by now d) = organisations d
   \<and> user_organisations (deactivate_user_agents as by now d) = user_organisations d
   \<and> next_agent_id (deactivate_user_agents as by now d) = next_agent_id d"
  by (induction as arbitrary: d) (simp_all add: Let_def frame_agent_save)

lemma frame_after_deactivation:
  "organisations (after_deactivation d usr org by now) = organisations d"
  "user_organisations (after_deactivation d usr org by now) = user_organisations d"
  "next_agent_id (after_deactivation d usr org by now) = next_agent_id d"
  by (simp_all add: after_deactivation_def Let_def frame_existing frame_user_agents)

section \<open>Roles under the writes\<close>

lemma role_on_revoke_other:
  "u \<noteq> user_id i \<Longrightarrow> user_role (sync_user_role_on_agent_revoke d i) u = user_role d u"
  by (simp add: sync_user_role_on_agent_revoke_def Let_def load_user_fields user_role_save_role
      split: option.split)

lemma role_on_revoke_cases:
  "user_role (sync_user_role_on_agent_revoke d i) u = user_role d u
   \<or> (user_role d u = Superuser \<and> user_role (sync_user_role_on_agent_revoke d i) u = User)"
  by (simp add: sync_user_role_on_agent_revoke_def Let_def load_user_fields user_role_save_role
      split: option.split)

lemma role_agent_save_other:
  "u \<noteq> user_id i \<Longrightarrow> user_role (agent_save d i) u = user_role d u"
  by (simp add: agent_save_def Let_def sync_user_role_on_agent_assign_def load_user_fields
      user_role_save_role role_on_revoke_other)

lemma role_agent_save_inactive:
  assumes "\<not> is_active i"
  shows "user_role (agent_save d i) u = user_role d u
   \<or> (user_role d u = Superuser \<and> user_role (agent_save d i) u = User)"
  using assms role_on_revoke_cases [of d i u]
  by (simp add: agent_save_def Let_def sync_user_role_on_agent_assign_def)

lemma role_sync:
  "user_role (sync_role_with_agent_status d (load_user d u)) u
   = (if active_agents_of_user d u \<noteq> [] then Superuser
      else if user_role d u = Superuser then User else user_role d u)"
  by (simp add: sync_role_with_agent_status_def is_agent_def Let_def load_user_fields
      user_role_save_role)

lemma role_sync_other:
  "v \<noteq> uid self \<Longrightarrow> user_role (sync_role_with_agent_status d self) v = user_role d v"
  by (simp add: sync_role_with_agent_status_def Let_def user_role_save_role)

lemma role_user_agents_other:
  "\<forall>a \<in> set as. user_id a \<noteq> u
   \<Longrightarrow> user_role (deactivate_user_agents as by now d) u = user_role d u"
  by (induction as arbitrary: d) (simp_all add: Let_def role_agent_save_other)

lemma role_objects_create_other:
  "u \<noteq> uid usr \<Longrightarrow> user_role (snd (objects_create d usr org by now)) u = user_role d u"
  by (simp add: objects_create_def Let_def sync_user_role_on_agent_assign_def
      sync_user_role_on_agent_revoke_def user_role_save_role)

lemma assign_agent_after:
  "assign_agent d usr org by now
   = (fst (objects_create (after_deactivation d usr org by now) usr org by now),
      save_role (snd (objects_create (after_deactivation d usr org by now) usr org by now))
        (uid usr) Superuser)"
  by (simp add: assign_agent_def after_deactivation_def Let_def split: prod.split)

lemma assign_agent_role_other:
  assumes "assign_agent d usr org by now = (a, d')" and "u \<noteq> uid usr"
  shows "user_role d' u = user_role (after_deactivation d usr org by now) u"
proof -
  from assms(1) have "d' = save_role (snd (objects_create (after_deactivation d usr org by now)
                                             usr org by now)) (uid usr) Superuser"
    by (simp add: assign_agent_after)
  with assms(2) show ?thesis
    by (simp add: user_role_save_role role_objects_create_other)
qed

lemma assign_agent_role_user:
  assumes "assign_agent d usr org by now = (a, d')"
  shows "user_role d' (uid usr) = Superuser"
  using assms by (auto simp: assign_agent_after user_role_save_role)

lemma assign_agent_active_org:
  assumes "assign_agent d usr org by now = (a, d')"
  shows "active_agents_of_organisation d' org = [a]"
  using after_deactivation_no_org [of d usr org "by" now] assign_agent_result [OF assms]
  by (simp add: active_agents_of_organisation_def)

lemma assign_agent_active_user:
  assumes "assign_agent d usr org by now = (a, d')"
  shows "active_agents_of_user d' (uid usr) = [a]"
  using after_deactivation_no_user [of d usr org "by" now] assign_agent_result [OF assms]
  by (simp add: active_agents_of_user_def)

section \<open>A superadmin who holds an agent row\<close>

lemma superadmin_agent_rows:
  "active_agents_of_user superadmin_agent_db 9 = [example_agent\<lparr>user_id := 9\<rparr>]"
  "user_role superadmin_agent_db 9 = Superadmin"
  by (simp_all add: active_agents_of_user_def superadmin_agent_db_fields example_db_fields
      example_agent_fields)

text \<open>
  Claim C4 fails on the code. In the store where the superadmin 9 holds the active agent
  row, \<^verbatim>\<open>sync_role_with_agent_status\<close> turns the stored role of 9 into \<^verbatim>\<open>'superuser'\<close>;
  so does the post-save handler when an active row of 9 is saved, and so does
  \<^verbatim>\<open>assign_agent\<close> when 9 is made an agent. Without an active row the role stays.
\<close>

theorem sync_role_demotes_superadmin_agent:
  "user_role superadmin_agent_db 9 = Superadmin
   \<and> user_role (sync_role_with_agent_status superadmin_agent_db
                  (load_user superadmin_agent_db 9)) 9 = Superuser
   \<and> user_role example_db 9 = Superadmin
   \<and> user_role (sync_user_role_on_agent_assign example_db (example_agent\<lparr>user_id := 9\<rparr>)
                  (load_user example_db 9)) 9 = Superuser
   \<and> user_role (snd (assign_agent example_db (load_user example_db 9) 5 (Some 9) 20)) 9 = Superuser
   \<and> user_role (sync_role_with_agent_status example_db (load_user example_db 9)) 9 = Superadmin"
proof -
  have 1: "user_role (sync_role_with_agent_status superadmin_agent_db
                  (load_user superadmin_agent_db 9)) 9 = Superuser"
    by (simp add: role_sync superadmin_agent_rows)
  have 2: "user_role example_db 9 = Superadmin" by (simp add: example_db_fields)
  have 3: "user_role (sync_user_role_on_agent_assign example_db (example_agent\<lparr>user_id := 9\<rparr>)
                  (load_user example_db 9)) 9 = Superuser"
    by (simp add: sync_user_role_on_agent_assign_def load_user_fields user_role_save_role
        example_agent_fields 2)
  have 4: "user_role (snd (assign_agent example_db (load_user example_db 9) 5 (Some 9) 20)) 9
           = Superuser"
    using assign_agent_role_user [OF prod.collapse [symmetric],
            of example_db "load_user example_db 9" 5 "Some 9" 20]
    by (simp add: load_user_fields)
  have "active_agents_of_user example_db 9 = []"
    by (simp add: active_agents_of_user_def example_db_fields example_agent_fields)
  then have 5: "user_role (sync_role_with_agent_status example_db (load_user example_db 9)) 9
                = Superadmin"
    by (simp add: role_sync 2)
  from superadmin_agent_rows(2) 1 2 3 4 5 show ?thesis by simp
qed

section \<open>The evicted agent\<close>

lemma find_present: "a \<in> set xs \<Longrightarrow> \<exists>x. find (\<lambda>r. pk r = pk a) xs = Some x"
  by (cases "find (\<lambda>r. pk r = pk a) xs") (auto simp: find_None_iff)

lemma find_other_key:
  "j \<noteq> k \<Longrightarrow> pk i \<noteq> k
   \<Longrightarrow> find (\<lambda>r. pk r = k) (map (\<lambda>r. if pk r = j then i else r) xs)
       = find (\<lambda>r. pk r = k) xs"
  by (induction xs) auto

lemma find_user_agents_other:
  "\<forall>b \<in> set as. pk b \<noteq> k
   \<Longrightarrow> find (\<lambda>r. pk r = k) (agents (deactivate_user_agents as by now d))
       = find (\<lambda>r. pk r = k) (agents d)"
  by (induction as arbitrary: d) (simp_all add: Let_def agents_agent_save find_other_key)

lemma existing_single:
  "deactivate_existing_agents [a] by now d
   = sync_role_with_agent_status (agent_save d (stamped a by now))
       (load_user (agent_save d (stamped a by now)) (user_id a))"
  by (simp add: Let_def stamped_def)

lemma evicted_after_existing:
  assumes uu: "unique_active_agent_per_user d"
    and a: "a \<in> set (agents d)" "is_active a" "user_id a = u"
  shows "user_role (deactivate_existing_agents [a] by now d) u
         = (if user_role d u = Superadmin then Superadmin else User)"
    and "active_agents_of_user (deactivate_existing_agents [a] by now d) u = []"
    and "find (\<lambda>r. pk r = pk a) (agents (deactivate_existing_agents [a] by now d))
         = Some (stamped a by now)"
    and "agents (deactivate_existing_agents [a] by now d)
         = agents (agent_save d (stamped a by now))"
proof -
  let ?s = "agent_save d (stamped a by now)"
  have only: "active_agents_of_user d u = [a]"
    by (rule only_active_agent_of_user [OF uu a(1,3,2)])
  have none: "active_agents_of_user ?s u = []"
  proof -
    {
      fix x
      assume x: "x \<in> set (agents ?s)" "is_active x" "user_id x = u"
      have "\<not> is_active (stamped a by now)" by (simp add: stamped_fields)
      from agent_save_inactive_still_active [OF this x(1,2)]
      have "x \<in> set (agents d)" and k: "pk x \<noteq> pk a" by (simp_all add: stamped_fields)
      with x(2,3) have "x \<in> set (active_agents_of_user d u)"
        by (simp add: active_agents_of_user_def)
      with only k have False by simp
    }
    then show ?thesis by (auto simp: active_agents_of_user_def filter_empty_conv)
  qed
  have rs: "user_role ?s u = user_role d u \<or> (user_role d u = Superuser \<and> user_role ?s u = User)"
    by (rule role_agent_save_inactive) (simp add: stamped_fields)
  have "user_role (sync_role_with_agent_status ?s (load_user ?s u)) u
        = (if user_role d u = Superadmin then Superadmin else User)"
    unfolding role_sync using none rs by (cases "user_role d u") auto
  then show "user_role (deactivate_existing_agents [a] by now d) u
             = (if user_role d u = Superadmin then Superadmin else User)"
    by (simp only: existing_single a(3))
  show ag: "agents (deactivate_existing_agents [a] by now d) = agents ?s"
    by (simp only: existing_single agents_sync_role)
  from none show "active_agents_of_user (deactivate_existing_agents [a] by now d) u = []"
    by (simp only: active_agents_of_user_def ag)
  from find_present [OF a(1)] obtain x where "find (\<lambda>r. pk r = pk a) (agents d) = Some x"
    by blast
  from find_replaced [OF this, of "stamped a by now"]
  show "find (\<lambda>r. pk r = pk a) (agents (deactivate_existing_agents [a] by now d))
         = Some (stamped a by now)"
    unfolding ag agents_agent_save by (simp add: stamped_fields)
qed

lemma evicted_after_deactivation:
  assumes uo: "unique_active_agent_per_org d" and uu: "unique_active_agent_per_user d"
    and a: "a \<in> set (agents d)" "is_active a" "user_id a = u" "organisation_id a = org"
    and other: "uid usr \<noteq> u"
  shows "user_role (after_deactivation d usr org by now) u
         = (if user_role d u = Superadmin then Superadmin else User)"
    and "active_agents_of_user (after_deactivation d usr org by now) u = []"
    and "find (\<lambda>r. pk r = pk a) (agents (after_deactivation d usr org by now))
         = Some (stamped a by now)"
proof -
  let ?d1 = "deactivate_existing_agents [a] by now d"
  let ?as = "active_agents_of_user ?d1 (uid usr)"
  have ex: "active_agents_of_organisation d org = [a]"
    using uo a(1,4,2) by (rule only_active_agent_of_organisation)
  then have ad: "after_deactivation d usr org by now = deactivate_user_agents ?as by now ?d1"
    by (simp add: after_deactivation_def Let_def)
  note e = evicted_after_existing [OF uu a(1-3), of "by" now]
  have users: "\<forall>b \<in> set ?as. user_id b \<noteq> u"
    using other by (simp add: active_agents_of_user_def)
  have keys: "\<forall>b \<in> set ?as. pk b \<noteq> pk a"
  proof
    fix b
    assume "b \<in> set ?as"
    then have "b \<in> set (agents ?d1)" and act: "is_active b"
      by (simp_all add: active_agents_of_user_def del: deactivate_existing_agents.simps)
    then have "b \<in> set (agents (agent_save d (stamped a by now)))"
      by (simp only: e(4))
    with act
    have "b \<in> set (agents d) \<and> pk b \<noteq> pk (stamped a by now)"
      by (intro agent_save_inactive_still_active) (simp_all add: stamped_fields)
    then show "pk b \<noteq> pk a" by (simp add: stamped_fields)
  qed
  from users e(1) show "user_role (after_deactivation d usr org by now) u
                        = (if user_role d u = Superadmin then Superadmin else User)"
    by (simp only: ad role_user_agents_other)
  have "length (active_agents_of_user (after_deactivation d usr org by now) u)
        \<le> length (active_agents_of_user ?d1 u)"
    unfolding ad by (rule user_count_user_agents)
  with e(2) show "active_agents_of_user (after_deactivation d usr org by now) u = []"
    by simp
  from keys e(3) show "find (\<lambda>r. pk r = pk a) (agents (after_deactivation d usr org by now))
         = Some (stamped a by now)"
    by (simp add: ad find_user_agents_other)
qed

lemma accessible_after_assign:
  assumes "assign_agent d usr org by now = (a, d')"
  shows "get_user_accessible_organisations d' (load_user d' (uid usr))
         = filter (\<lambda>row. org_pk row = org \<and> org_is_active row) (organisations d)"
proof -
  note r = assign_agent_result [OF assms]
  have act: "active_agents_of_user d' (uid usr) = [a]"
    by (rule assign_agent_active_user [OF assms])
  have role: "user_role d' (uid usr) = Superuser"
    by (rule assign_agent_role_user [OF assms])
  have orgs: "organisations d' = organisations d"
    using assms by (auto simp: assign_agent_after objects_create_def Let_def frame_save_role
        frame_on_assign frame_on_revoke frame_after_deactivation)
  from r(1) have "organisation_id a = org" by simp
  with act role orgs show ?thesis
    by (simp add: get_user_accessible_organisations_def get_managed_organisation_def
        is_agent_def is_superadmin_def load_user_fields)
qed

lemma only_active_organisation_row:
  "\<lparr>org_pk = k, org_is_active = True\<rparr> \<in> set os
   \<Longrightarrow> set (filter (\<lambda>row. org_pk row = k \<and> org_is_active row) os)
       = {\<lparr>org_pk = k, org_is_active = True\<rparr>}"
  by auto

text \<open>
  Claim C2, as the code has it. Take a store that keeps both uniqueness constraints and
  whose keys lie below the sequence, in which the active organisation \<open>org\<close> has an
  active agent row \<open>a\<close> of user \<open>u1\<close>, who is no superadmin. A call
  \<^verbatim>\<open>assign_agent(usr, org, admin)\<close> for another user leaves the row \<open>a\<close> inactive with
  \<^verbatim>\<open>revoked_by = admin\<close> and \<^verbatim>\<open>revoked_at\<close> set to the time of the call, puts the role
  of \<open>u1\<close> back to \<^verbatim>\<open>'user'\<close>, returns a row with a fresh key that is stored, active, of
  \<open>usr\<close> and \<open>org\<close> and assigned by \<open>admin\<close>, and afterwards
  \<^verbatim>\<open>get_user_accessible_organisations\<close> of \<open>usr\<close> is exactly \<open>org\<close>.
\<close>

theorem assign_agent_replaces_agent:
  assumes "unique_active_agent_per_org d" and "unique_active_agent_per_user d"
    and "keys_below_sequence d"
    and "a \<in> set (agents d)" and "is_active a" and "user_id a = u1"
    and "organisation_id a = org"
    and "uid usr \<noteq> u1" and "user_role d u1 \<noteq> Superadmin"
    and "\<lparr>org_pk = org, org_is_active = True\<rparr> \<in> set (organisations d)"
    and "assign_agent d usr org admin now = (new_agent, d')"
  shows "find (\<lambda>r. pk r = pk a) (agents d')
           = Some (a\<lparr>is_active := False, revoked_at := Some now, revoked_by_id := admin\<rparr>)
       \<and> user_role d' u1 = User
       \<and> new_agent \<in> set (agents d') \<and> pk new_agent \<notin> pk ` set (agents d)
       \<and> is_active new_agent \<and> user_id new_agent = uid usr
       \<and> organisation_id new_agent = org \<and> assigned_by_id new_agent = admin
       \<and> active_agents_of_organisation d' org = [new_agent]
       \<and> set (get_user_accessible_organisations d' (load_user d' (uid usr)))
           = {\<lparr>org_pk = org, org_is_active = True\<rparr>}"
proof -
  note r = assign_agent_result [OF assms(11)]
  note e = evicted_after_deactivation [OF assms(1,2,4,5,6,7,8), of admin now]
  have key: "pk new_agent = next_agent_id d"
    using r(1) by (simp add: frame_after_deactivation)
  from assms(3) have below: "\<forall>x \<in> set (agents d). pk x < next_agent_id d"
    by (simp add: keys_below_sequence_def)
  with assms(4) have "pk a \<noteq> pk new_agent" by (auto simp: key)
  with e(3) r(2) have 1: "find (\<lambda>r. pk r = pk a) (agents d')
           = Some (a\<lparr>is_active := False, revoked_at := Some now, revoked_by_id := admin\<rparr>)"
    by (simp add: stamped_def)
  from assms(8) have "u1 \<noteq> uid usr" by simp
  from assign_agent_role_other [OF assms(11) this] e(1) assms(9)
  have 2: "user_role d' u1 = User" by simp
  from below have 3: "pk new_agent \<notin> pk ` set (agents d)" by (auto simp: key)
  from r have 4: "new_agent \<in> set (agents d') \<and> is_active new_agent
       \<and> user_id new_agent = uid usr \<and> organisation_id new_agent = org
       \<and> assigned_by_id new_agent = admin"
    by simp
  have 5: "active_agents_of_organisation d' org = [new_agent]"
    by (rule assign_agent_active_org [OF assms(11)])
  have 6: "set (get_user_accessible_organisations d' (load_user d' (uid usr)))
           = {\<lparr>org_pk = org, org_is_active = True\<rparr>}"
    unfolding accessible_after_assign [OF assms(11)]
    by (rule only_active_organisation_row [OF assms(10)])
  from 1 2 3 4 5 6 show ?thesis by simp
qed

lemma example_db_keys: "keys_below_sequence example_db"
  by (simp add: keys_below_sequence_def example_db_fields example_agent_fields)

theorem assign_agent_replaces_agent_witness:
  "find (\<lambda>r. pk r = 7) (agents (snd (assign_agent example_db (load_user example_db 3) 4 (Some 9) 20)))
     = Some (example_agent\<lparr>is_active := False, revoked_at := Some 20, revoked_by_id := Some 9\<rparr>)
   \<and> user_role (snd (assign_agent example_db (load_user example_db 3) 4 (Some 9) 20)) 2 = User
   \<and> pk (fst (assign_agent example_db (load_user example_db 3) 4 (Some 9) 20)) \<noteq> 7
   \<and> active_agents_of_organisation (snd (assign_agent example_db (load_user example_db 3) 4 (Some 9) 20)) 4
       = [fst (assign_agent example_db (load_user example_db 3) 4 (Some 9) 20)]
   \<and> user_id (fst (assign_agent example_db (load_user example_db 3) 4 (Some 9) 20)) = 3
   \<and> set (get_user_accessible_organisations
             (snd (assign_agent example_db (load_user example_db 3) 4 (Some 9) 20))
             (load_user (snd (assign_agent example_db (load_user example_db 3) 4 (Some 9) 20)) 3))
       = {\<lparr>org_pk = 4, org_is_active = True\<rparr>}"
proof -
  let ?r = "assign_agent example_db (load_user example_db 3) 4 (Some 9) 20"
  have 4: "example_agent \<in> set (agents example_db)" by (simp add: example_db_fields)
  have 5: "is_active example_agent" by (simp add: example_agent_fields)
  have 6: "user_id example_agent = 2" by (simp add: example_agent_fields)
  have 7: "organisation_id example_agent = 4" by (simp add: example_agent_fields)
  have 8: "uid (load_user example_db 3) \<noteq> 2" by (simp add: load_user_fields)
  have 9: "user_role example_db 2 \<noteq> Superadmin" by (simp add: example_db_fields)
  have 10: "\<lparr>org_pk = 4, org_is_active = True\<rparr> \<in> set (organisations example_db)"
    by (simp add: example_db_fields)
  have 11: "?r = (fst ?r, snd ?r)" by simp
  from assign_agent_replaces_agent
         [OF example_db_unique_org example_db_unique_user example_db_keys 4 5 6 7 8 9 10 11]
  show ?thesis
    by (simp add: example_agent_fields example_db_fields load_user_fields)
qed

text \<open>
  The claim as written, for every store in which the organisation has an active agent
  row, fails in two of them. When the organisation is disabled the new agent can access
  no organisation; when the evicted agent is a superadmin the role is not put back to
  \<^verbatim>\<open>'user'\<close>.
\<close>

lemma disabled_org_db_unique:
  "unique_active_agent_per_org disabled_org_db" "unique_active_agent_per_user disabled_org_db"
  "unique_active_agent_per_org superadmin_agent_db" "unique_active_agent_per_user superadmin_agent_db"
  by (simp_all add: unique_active_agent_per_org_def unique_active_agent_per_user_def
      active_agents_of_organisation_def active_agents_of_user_def
      disabled_org_db_fields superadmin_agent_db_fields)

theorem assign_agent_replaces_agent_counterexample:
  "active_agents_of_organisation disabled_org_db 6 = [example_agent\<lparr>organisation_id := 6\<rparr>]
   \<and> get_user_accessible_organisations
        (snd (assign_agent disabled_org_db (load_user disabled_org_db 3) 6 (Some 9) 20))
        (load_user (snd (assign_agent disabled_org_db (load_user disabled_org_db 3) 6 (Some 9) 20)) 3)
       = []
   \<and> active_agents_of_organisation superadmin_agent_db 4 = [example_agent\<lparr>user_id := 9\<rparr>]
   \<and> user_role (snd (assign_agent superadmin_agent_db (load_user superadmin_agent_db 3) 4 (Some 9) 20)) 9
       = Superadmin"
proof -
  have 1: "active_agents_of_organisation disabled_org_db 6 = [example_agent\<lparr>organisation_id := 6\<rparr>]"
    by (simp add: active_agents_of_organisation_def disabled_org_db_fields example_agent_fields)
  let ?r = "assign_agent disabled_org_db (load_user disabled_org_db 3) 6 (Some 9) 20"
  have "?r = (fst ?r, snd ?r)" by simp
  from accessible_after_assign [OF this]
  have 2: "get_user_accessible_organisations (snd ?r) (load_user (snd ?r) 3) = []"
    by (simp add: load_user_fields disabled_org_db_fields example_db_fields)
  have 3: "active_agents_of_organisation superadmin_agent_db 4 = [example_agent\<lparr>user_id := 9\<rparr>]"
    by (simp add: active_agents_of_organisation_def superadmin_agent_db_fields example_agent_fields)
  let ?q = "assign_agent superadmin_agent_db (load_user superadmin_agent_db 3) 4 (Some 9) 20"
  have q: "?q = (fst ?q, snd ?q)" by simp
  have a: "example_agent\<lparr>user_id := 9\<rparr> \<in> set (agents superadmin_agent_db)"
    "is_active (example_agent\<lparr>user_id := 9\<rparr>)"
    "user_id (example_agent\<lparr>user_id := 9\<rparr>) = 9"
    "organisation_id (example_agent\<lparr>user_id := 9\<rparr>) = 4"
    "uid (load_user superadmin_agent_db 3) \<noteq> 9"
    by (simp_all add: superadmin_agent_db_fields example_agent_fields load_user_fields)
  have ne: "(9::nat) \<noteq> uid (load_user superadmin_agent_db 3)" by (simp add: load_user_fields)
  from evicted_after_deactivation(1) [OF disabled_org_db_unique(3,4) a, of "Some 9" 20]
    assign_agent_role_other [OF q ne]
  have 4: "user_role (snd ?q) 9 = Superadmin"
    by (simp add: superadmin_agent_db_fields example_db_fields)
  from 1 2 3 4 show ?thesis by simp
qed

section \<open>Role re-sync on the three paths\<close>

lemma not_superadmin_cases: "r \<noteq> Superadmin \<Longrightarrow> r = User \<or> r = Superuser"
  by (cases r) simp_all

lemma revoke_agent_role:
  assumes "revoke_agent d agent_id revoker now = Inr (a, d')" and "user_id a = u"
    and "user_role d u \<noteq> Superadmin"
  shows "user_role d' u = (if active_agents_of_user d' u \<noteq> [] then Superuser else User)"
proof -
  from assms(1) obtain a0 where f: "find (\<lambda>r. pk r = agent_id) (agents d) = Some a0"
    by (auto simp: revoke_agent_def split: option.splits)
  let ?s = "agent_save d (stamped a0 revoker now)"
  from assms(1) have a: "a = stamped a0 revoker now"
    by (auto simp: revoke_agent_found [OF f])
  from assms(1) have d': "d' = sync_role_with_agent_status ?s (load_user ?s (user_id a0))"
    by (auto simp: revoke_agent_found [OF f])
  from a assms(2) have u: "user_id a0 = u" by (simp add: stamped_fields)
  have "user_role ?s u = user_role d u \<or> (user_role d u = Superuser \<and> user_role ?s u = User)"
    by (rule role_agent_save_inactive) (simp add: stamped_fields)
  with assms(3) have "user_role ?s u \<noteq> Superadmin" by auto
  then have c: "user_role ?s u = User \<or> user_role ?s u = Superuser"
    by (rule not_superadmin_cases)
  have act: "active_agents_of_user d' u = active_agents_of_user ?s u"
    by (simp add: d' active_agents_of_user_def agents_sync_role)
  have "user_role d' u = (if active_agents_of_user ?s u \<noteq> [] then Superuser
      else if user_role ?s u = Superuser then User else user_role ?s u)"
    unfolding d' u by (rule role_sync)
  with c show ?thesis unfolding act by auto
qed

lemma assign_agent_evicted_role:
  assumes "unique_active_agent_per_org d" and "unique_active_agent_per_user d"
    and "a \<in> set (agents d)" and "is_active a" and "user_id a = u"
    and "organisation_id a = org" and "user_role d u \<noteq> Superadmin"
    and "assign_agent d usr org by now = (new_agent, d')"
  shows "user_role d' u = (if active_agents_of_user d' u \<noteq> [] then Superuser else User)"
proof (cases "u = uid usr")
  case True
  with assign_agent_role_user [OF assms(8)] assign_agent_active_user [OF assms(8)]
  show ?thesis by simp
next
  case False
  then have ne: "uid usr \<noteq> u" by simp
  note e = evicted_after_deactivation [OF assms(1-6) ne, of "by" now]
  note r = assign_agent_result [OF assms(8)]
  from r False have "active_agents_of_user d' u
                     = active_agents_of_user (after_deactivation d usr org by now) u"
    by (simp add: active_agents_of_user_def)
  with e(2) have "active_agents_of_user d' u = []" by simp
  moreover from assign_agent_role_other [OF assms(8) False] e(1) assms(7)
  have "user_role d' u = User" by simp
  ultimately show ?thesis by simp
qed

lemma agent_delete_agents:
  "agents (agent_delete d a) = filter (\<lambda>r. pk r \<noteq> pk a) (agents d)"
  by (simp add: agent_delete_def sync_user_role_on_agent_delete_def Let_def agents_save_role)

lemma agent_delete_role:
  assumes "user_id a = u" and "user_role d u \<noteq> Superadmin"
    and "active_agents_of_user d u \<noteq> [] \<longrightarrow> user_role d u = Superuser"
  shows "user_role (agent_delete d a) u
         = (if active_agents_of_user (agent_delete d a) u \<noteq> [] then Superuser else User)"
proof -
  let ?rest = "filter (\<lambda>r. user_id r = u \<and> is_active r) (filter (\<lambda>r. pk r \<noteq> pk a) (agents d))"
  have act: "active_agents_of_user (agent_delete d a) u = ?rest"
    by (simp add: active_agents_of_user_def agent_delete_agents)
  have role: "user_role (agent_delete d a) u
              = (if ?rest = [] \<and> user_role d u = Superuser then User else user_role d u)"
    using assms(1)
    by (simp add: agent_delete_def sync_user_role_on_agent_delete_def Let_def load_user_fields
        user_role_save_role)
  show ?thesis
  proof (cases "?rest = []")
    case True
    with not_superadmin_cases [OF assms(2)] show ?thesis unfolding act role by auto
  next
    case False
    then have "active_agents_of_user d u \<noteq> []"
      by (auto simp: active_agents_of_user_def filter_empty_conv)
    with assms(3) False show ?thesis unfolding act role by simp
  qed
qed

lemma holds_active_row:
  "active_agents_of_user d u \<noteq> [] \<longleftrightarrow> (\<exists>r \<in> set (agents d). user_id r = u \<and> is_active r)"
  by (auto simp: active_agents_of_user_def filter_empty_conv)

text \<open>
  Claim C5, as the code has it. Let the stored role of user \<open>u\<close> be other than
  \<^verbatim>\<open>'superadmin'\<close>. After \<^verbatim>\<open>revoke_agent\<close> on a row of \<open>u\<close>, and after an
  \<^verbatim>\<open>assign_agent\<close> that evicts \<open>u\<close> from the organisation in a store that keeps the two
  uniqueness constraints, the role of \<open>u\<close> is \<^verbatim>\<open>'superuser'\<close> if the agent table of the
  resulting store holds an active row of \<open>u\<close> and \<^verbatim>\<open>'user'\<close> otherwise. After the
  deletion of a row of \<open>u\<close> the same holds provided \<open>u\<close> was elevated if \<open>u\<close> held an
  active row before: the post-delete handler only ever downgrades.
\<close>

theorem role_resync_paths_agree:
  assumes "user_role d u \<noteq> Superadmin" and "user_id a = u"
  shows "(revoke_agent d agent_id revoker now = Inr (a, dr)
            \<longrightarrow> user_role dr u
                = (if \<exists>r \<in> set (agents dr). user_id r = u \<and> is_active r then Superuser else User))
       \<and> (unique_active_agent_per_org d \<and> unique_active_agent_per_user d
            \<and> a \<in> set (agents d) \<and> is_active a \<and> organisation_id a = org
            \<and> assign_agent d usr org assigned_by now = (new_agent, da)
            \<longrightarrow> user_role da u
                = (if \<exists>r \<in> set (agents da). user_id r = u \<and> is_active r then Superuser else User))
       \<and> (((\<exists>r \<in> set (agents d). user_id r = u \<and> is_active r) \<longrightarrow> user_role d u = Superuser)
            \<longrightarrow> user_role (agent_delete d a) u
                = (if \<exists>r \<in> set (agents (agent_delete d a)). user_id r = u \<and> is_active r
                   then Superuser else User))"
proof (intro conjI impI)
  assume "revoke_agent d agent_id revoker now = Inr (a, dr)"
  from revoke_agent_role [OF this assms(2,1)]
  show "user_role dr u
        = (if \<exists>r \<in> set (agents dr). user_id r = u \<and> is_active r then Superuser else User)"
    by (simp only: holds_active_row)
next
  assume h: "unique_active_agent_per_org d \<and> unique_active_agent_per_user d
            \<and> a \<in> set (agents d) \<and> is_active a \<and> organisation_id a = org
            \<and> assign_agent d usr org assigned_by now = (new_agent, da)"
  then have "user_role da u = (if active_agents_of_user da u \<noteq> [] then Superuser else User)"
    using assms by (intro assign_agent_evicted_role [of d a u org usr assigned_by now new_agent da])
      simp_all
  then show "user_role da u
        = (if \<exists>r \<in> set (agents da). user_id r = u \<and> is_active r then Superuser else User)"
    by (simp only: holds_active_row)
next
  assume "(\<exists>r \<in> set (agents d). user_id r = u \<and> is_active r) \<longrightarrow> user_role d u = Superuser"
  then have "active_agents_of_user d u \<noteq> [] \<longrightarrow> user_role d u = Superuser"
    by (simp only: holds_active_row)
  from agent_delete_role [OF assms(2,1) this]
  show "user_role (agent_delete d a) u
        = (if \<exists>r \<in> set (agents (agent_delete d a)). user_id r = u \<and> is_active r
           then Superuser else User)"
    by (simp only: holds_active_row)
qed

lemma revoked_agent_fields:
  "pk revoked_agent = 6" "user_id revoked_agent = 2" "organisation_id revoked_agent = 5"
  "\<not> is_active revoked_agent"
  by (simp_all add: revoked_agent_def)

lemma two_rows_db_fields:
  "agents two_rows_db = [example_agent, revoked_agent]"
  "user_role two_rows_db = user_role example_db"
  by (simp_all add: two_rows_db_def)

theorem role_resync_paths_agree_witness:
  "user_role example_db 2 \<noteq> Superadmin \<and> user_role two_rows_db 2 \<noteq> Superadmin
   \<and> (\<exists>a1 d1. revoke_agent example_db 7 (Some 9) 20 = Inr (a1, d1) \<and> user_role d1 2 = User)
   \<and> (\<exists>a2 d2. revoke_agent two_rows_db 6 (Some 9) 20 = Inr (a2, d2) \<and> user_role d2 2 = Superuser)
   \<and> user_role (snd (assign_agent example_db (load_user example_db 3) 4 (Some 9) 20)) 2 = User
   \<and> user_role (snd (assign_agent example_db (load_user example_db 2) 4 (Some 9) 20)) 2 = Superuser
   \<and> user_role (agent_delete example_db example_agent) 2 = User
   \<and> user_role (agent_delete two_rows_db revoked_agent) 2 = Superuser"
proof -
  have r: "user_role example_db 2 \<noteq> Superadmin" by (simp add: example_db_fields)
  have r': "user_role two_rows_db 2 \<noteq> Superadmin"
    by (simp add: two_rows_db_fields example_db_fields)
  have u: "user_id example_agent = 2" by (simp add: example_agent_fields)
  have u': "user_id revoked_agent = 2" by (simp add: revoked_agent_fields)
  \<comment> \<open>revocation of the only active row\<close>
  let ?a1 = "stamped example_agent (Some 9) 20"
  have u1: "user_id ?a1 = 2" by (simp add: stamped_fields example_agent_fields)
  obtain d1 where rv1: "revoke_agent example_db 7 (Some 9) 20 = Inr (?a1, d1)"
    using revoke_agent_found [OF example_find_agent] by blast
  from revoke_agent_agents [OF rv1]
  have "agents d1 = [?a1]"
    by (simp add: example_db_fields example_agent_fields stamped_fields)
  then have no1: "\<not> (\<exists>r \<in> set (agents d1). user_id r = 2 \<and> is_active r)"
    by (simp add: stamped_fields)
  from role_resync_paths_agree [OF r u1, where agent_id = 7 and revoker = "Some 9"
         and now = 20 and dr = d1] rv1 no1
  have 1: "user_role d1 2 = User" by simp
  \<comment> \<open>revocation of an old row while another row is active\<close>
  let ?a2 = "stamped revoked_agent (Some 9) 20"
  have u2: "user_id ?a2 = 2" by (simp add: stamped_fields revoked_agent_fields)
  have "find (\<lambda>r. pk r = 6) (agents two_rows_db) = Some revoked_agent"
    by (simp add: two_rows_db_fields example_agent_fields revoked_agent_fields)
  from revoke_agent_found [OF this]
  obtain d2 where rv2: "revoke_agent two_rows_db 6 (Some 9) 20 = Inr (?a2, d2)" by blast
  from revoke_agent_agents [OF rv2]
  have "agents d2 = [example_agent, ?a2]"
    by (simp add: two_rows_db_fields example_agent_fields revoked_agent_fields stamped_fields)
  then have yes2: "\<exists>r \<in> set (agents d2). user_id r = 2 \<and> is_active r"
    by (simp add: example_agent_fields)
  from role_resync_paths_agree [OF r' u2, where agent_id = 6 and revoker = "Some 9"
         and now = 20 and dr = d2] rv2 yes2
  have 2: "user_role d2 2 = Superuser" by simp
  \<comment> \<open>eviction by another user\<close>
  let ?q = "assign_agent example_db (load_user example_db 3) 4 (Some 9) 20"
  have q: "?q = (fst ?q, snd ?q)" by simp
  have pre: "unique_active_agent_per_org example_db \<and> unique_active_agent_per_user example_db
       \<and> example_agent \<in> set (agents example_db) \<and> is_active example_agent
       \<and> organisation_id example_agent = 4"
    by (simp add: example_db_unique_org example_db_unique_user example_db_fields
        example_agent_fields)
  have ne: "uid (load_user example_db 3) \<noteq> 2" by (simp add: load_user_fields)
  have "active_agents_of_user (after_deactivation example_db (load_user example_db 3) 4 (Some 9) 20) 2
        = []"
    using pre by (intro evicted_after_deactivation(2) [OF _ _ _ _ u _ ne]) simp_all
  then have none3: "\<forall>r \<in> set (agents (after_deactivation example_db (load_user example_db 3)
                                             4 (Some 9) 20)). \<not> (user_id r = 2 \<and> is_active r)"
    by (simp add: active_agents_of_user_def filter_empty_conv)
  from assign_agent_result(1) [OF q] have "user_id (fst ?q) = 3"
    by (simp add: load_user_fields)
  with none3 assign_agent_result(2) [OF q]
  have no3: "\<not> (\<exists>r \<in> set (agents (snd ?q)). user_id r = 2 \<and> is_active r)"
    by simp
  from role_resync_paths_agree [OF r u, where org = 4 and usr = "load_user example_db 3"
         and assigned_by = "Some 9" and now = 20 and new_agent = "fst ?q" and da = "snd ?q"]
    pre q no3
  have 3: "user_role (snd ?q) 2 = User" by simp
  \<comment> \<open>the agent assigned again to the organisation\<close>
  let ?p = "assign_agent example_db (load_user example_db 2) 4 (Some 9) 20"
  have p: "?p = (fst ?p, snd ?p)" by simp
  from assign_agent_result [OF p]
  have yes4: "\<exists>r \<in> set (agents (snd ?p)). user_id r = 2 \<and> is_active r"
    by (intro bexI [of _ "fst ?p"]) (simp_all add: load_user_fields)
  from role_resync_paths_agree [OF r u, where org = 4 and usr = "load_user example_db 2"
         and assigned_by = "Some 9" and now = 20 and new_agent = "fst ?p" and da = "snd ?p"]
    pre p yes4
  have 4: "user_role (snd ?p) 2 = Superuser" by simp
  \<comment> \<open>deletion of the only row, and of an old row beside an active one\<close>
  have inv: "(\<exists>r \<in> set (agents example_db). user_id r = 2 \<and> is_active r)
             \<longrightarrow> user_role example_db 2 = Superuser"
    by (simp add: example_db_fields)
  have no5: "\<not> (\<exists>r \<in> set (agents (agent_delete example_db example_agent)).
                 user_id r = 2 \<and> is_active r)"
    by (simp add: agent_delete_agents example_db_fields)
  from role_resync_paths_agree [OF r u] inv no5
  have 5: "user_role (agent_delete example_db example_agent) 2 = User" by simp
  have inv': "(\<exists>r \<in> set (agents two_rows_db). user_id r = 2 \<and> is_active r)
             \<longrightarrow> user_role two_rows_db 2 = Superuser"
    by (simp add: two_rows_db_fields example_db_fields)
  have yes6: "\<exists>r \<in> set (agents (agent_delete two_rows_db revoked_agent)).
                 user_id r = 2 \<and> is_active r"
    by (simp add: agent_delete_agents two_rows_db_fields example_agent_fields
        revoked_agent_fields)
  from role_resync_paths_agree [OF r' u'] inv' yes6
  have 6: "user_role (agent_delete two_rows_db revoked_agent) 2 = Superuser" by simp
  from r r' rv1 1 rv2 2 3 4 5 6 show ?thesis by blast
qed

text \<open>
  Without the hypothesis on the deletion path the claim fails. In a store where user 2
  has the role \<^verbatim>\<open>'user'\<close> beside an active row, deleting the old row of user 2 leaves
  the role \<^verbatim>\<open>'user'\<close> although an active row exists, while revoking that same old row
  makes the role \<^verbatim>\<open>'superuser'\<close>: the post-delete handler only downgrades.
\<close>

lemma unsynced_db_fields:
  "agents unsynced_db = [example_agent, revoked_agent]"
  "user_role unsynced_db 2 = User"
  by (simp_all add: unsynced_db_def two_rows_db_fields)

theorem role_resync_paths_agree_counterexample:
  "user_role unsynced_db 2 \<noteq> Superadmin
   \<and> user_id revoked_agent = 2 \<and> revoked_agent \<in> set (agents unsynced_db)
   \<and> (\<exists>r \<in> set (agents (agent_delete unsynced_db revoked_agent)). user_id r = 2 \<and> is_active r)
   \<and> user_role (agent_delete unsynced_db revoked_agent) 2 = User
   \<and> (\<exists>a d. revoke_agent unsynced_db 6 (Some 9) 20 = Inr (a, d)
         \<and> (\<exists>r \<in> set (agents d). user_id r = 2 \<and> is_active r)
         \<and> user_role d 2 = Superuser)"
proof -
  have 1: "\<exists>r \<in> set (agents (agent_delete unsynced_db revoked_agent)). user_id r = 2 \<and> is_active r"
    by (simp add: agent_delete_agents unsynced_db_fields example_agent_fields
        revoked_agent_fields)
  have 2: "user_role (agent_delete unsynced_db revoked_agent) 2 = User"
    by (simp add: agent_delete_def sync_user_role_on_agent_delete_def Let_def load_user_fields
        user_role_save_role unsynced_db_fields revoked_agent_fields)
  have "find (\<lambda>r. pk r = 6) (agents unsynced_db) = Some revoked_agent"
    by (simp add: unsynced_db_fields example_agent_fields revoked_agent_fields)
  from revoke_agent_found [OF this]
  obtain d where rv: "revoke_agent unsynced_db 6 (Some 9) 20
                      = Inr (stamped revoked_agent (Some 9) 20, d)" by blast
  from revoke_agent_agents [OF rv]
  have "agents d = [example_agent, stamped revoked_agent (Some 9) 20]"
    by (simp add: unsynced_db_fields example_agent_fields revoked_agent_fields stamped_fields)
  then have 3: "\<exists>r \<in> set (agents d). user_id r = 2 \<and> is_active r"
    by (simp add: example_agent_fields)
  have "user_role d 2 = (if active_agents_of_user d 2 \<noteq> [] then Superuser else User)"
    by (rule revoke_agent_role [OF rv]) (simp_all add: stamped_fields revoked_agent_fields
        unsynced_db_fields)
  with 3 have 4: "user_role d 2 = Superuser" by (simp add: holds_active_row)
  from 1 2 rv 3 4 show ?thesis
    by (auto simp: unsynced_db_fields revoked_agent_fields)
qed

section \<open>The role invariant is kept\<close>

lemma elevated_user: 
  "active_agents_elevated d \<Longrightarrow> active_agents_of_user d u \<noteq> [] \<longrightarrow> user_role d u = Superuser"
  by (auto simp: active_agents_elevated_def active_agents_of_user_def filter_empty_conv)

lemma elevated_on_revoke:
  assumes "active_agents_elevated d" and "r \<in> set (agents d)" and "is_active r"
    and "pk r \<noteq> pk i"
  shows "user_role (sync_user_role_on_agent_revoke d i) (user_id r) = Superuser"
proof -
  from assms(1-3) have "user_role d (user_id r) = Superuser"
    by (simp add: active_agents_elevated_def)
  moreover have "user_id r = user_id i
    \<Longrightarrow> filter (\<lambda>a. user_id a = user_id i \<and> is_active a \<and> pk a \<noteq> pk i) (agents d) \<noteq> []"
    using assms(2-4) by (auto simp: filter_empty_conv)
  ultimately show ?thesis
    by (auto simp: sync_user_role_on_agent_revoke_def Let_def load_user_fields
        user_role_save_role split: option.split)
qed

lemma elevated_agent_save:
  assumes "\<not> is_active i" and "active_agents_elevated d"
  shows "active_agents_elevated (agent_save d i)"
  unfolding active_agents_elevated_def
proof (intro ballI impI)
  fix r
  assume "r \<in> set (agents (agent_save d i))" and "is_active r"
  with agent_save_inactive_still_active [OF assms(1)]
  have r: "r \<in> set (agents d)" "pk r \<noteq> pk i" "is_active r" by blast+
  from elevated_on_revoke [OF assms(2) r(1,3,2)] assms(1)
  show "user_role (agent_save d i) (user_id r) = Superuser"
    by (simp add: agent_save_def Let_def sync_user_role_on_agent_assign_def)
qed

lemma elevated_sync:
  assumes "active_agents_elevated d"
  shows "active_agents_elevated (sync_role_with_agent_status d self)"
  using assms
  by (auto simp: active_agents_elevated_def sync_role_with_agent_status_def Let_def
      is_agent_def active_agents_of_user_def filter_empty_conv save_role_def)

lemma elevated_existing:
  "active_agents_elevated d \<Longrightarrow> active_agents_elevated (deactivate_existing_agents as by now d)"
  by (induction as arbitrary: d) (simp_all add: Let_def elevated_sync elevated_agent_save)

lemma elevated_user_agents:
  "active_agents_elevated d \<Longrightarrow> active_agents_elevated (deactivate_user_agents as by now d)"
  by (induction as arbitrary: d) (simp_all add: Let_def elevated_agent_save)

lemma elevated_assign_agent:
  assumes "active_agents_elevated d" and "assign_agent d usr org by now = (a, d')"
  shows "active_agents_elevated d'"
  unfolding active_agents_elevated_def
proof (intro ballI impI)
  fix r
  assume r: "r \<in> set (agents d')" "is_active r"
  note res = assign_agent_result [OF assms(2)]
  have inv: "active_agents_elevated (after_deactivation d usr org by now)"
    unfolding after_deactivation_def Let_def
    by (intro elevated_user_agents elevated_existing assms(1))
  show "user_role d' (user_id r) = Superuser"
  proof (cases "user_id r = uid usr")
    case True
    with assign_agent_role_user [OF assms(2)] show ?thesis by simp
  next
    case False
    with res r have "r \<in> set (agents (after_deactivation d usr org by now))" by auto
    with inv r(2) have "user_role (after_deactivation d usr org by now) (user_id r) = Superuser"
      by (simp add: active_agents_elevated_def)
    with assign_agent_role_other [OF assms(2) False] show ?thesis by simp
  qed
qed

lemma elevated_revoke_agent:
  assumes "active_agents_elevated d" and "revoke_agent d agent_id revoker now = Inr (a, d')"
  shows "active_agents_elevated d'"
proof -
  from assms(2) obtain a0 where f: "find (\<lambda>r. pk r = agent_id) (agents d) = Some a0"
    by (auto simp: revoke_agent_def split: option.splits)
  from assms(2) have "d' = sync_role_with_agent_status (agent_save d (stamped a0 revoker now))
                  (load_user (agent_save d (stamped a0 revoker now)) (user_id a0))"
    by (auto simp: revoke_agent_found [OF f])
  then show ?thesis
    by (simp add: elevated_sync elevated_agent_save assms(1) stamped_fields)
qed

lemma elevated_agent_delete:
  assumes "active_agents_elevated d"
  shows "active_agents_elevated (agent_delete d a)"
  using assms
  by (auto simp: active_agents_elevated_def agent_delete_def sync_user_role_on_agent_delete_def
      Let_def load_user_fields save_role_def filter_empty_conv)

section \<open>A run of assign_agent that is cut short\<close>















end
